theory Spec2Isabelle
  imports Complex_Main
begin

chapter \<open>The gateway core: block store, mempool transaction cache, request handling\<close>

text \<open>
  The development follows four source files:
  \<^item> \<^verbatim>\<open>proxy/indexer/solana_blocks_db.py\<close> (class \<^verbatim>\<open>SolBlocksDB\<close>),
  \<^item> \<^verbatim>\<open>proxy/mempool/mempool_neon_tx_dict.py\<close> (class \<^verbatim>\<open>MPTxDict\<close>),
  \<^item> \<^verbatim>\<open>proxy/mempool/mempool_service.py\<close> (class \<^verbatim>\<open>MPService\<close>),
  \<^item> \<^verbatim>\<open>proxy/plugin/solana_rest_api.py\<close> (classes \<^verbatim>\<open>EthereumModel\<close>,
    \<^verbatim>\<open>SolanaProxyPlugin\<close>).

  Python integers are \<^typ>\<open>int\<close>. A Python \<^verbatim>\<open>str\<close> is a \<^typ>\<open>string\<close>, a list of
  characters with code points below 256. Every \<^verbatim>\<open>raise\<close> is a value \<open>Inl e\<close> of a sum type.
\<close>

section \<open>Python values and exceptions\<close>

text \<open>
  Values that travel through the JSON-RPC layer: what \<^verbatim>\<open>json.loads\<close> produces and
  what the handlers return. A \<^verbatim>\<open>dict\<close> is an association list in insertion order with
  pairwise different keys; \<open>JNull\<close> is \<^verbatim>\<open>None\<close>.
\<close>

datatype json =
    JNull
  | JBool bool
  | JInt int
  | JFloat rat
  | JStr string
  | JList "json list"
  | JObj "(string \<times> json) list"

text \<open>
  A raised exception. The \<^verbatim>\<open>except\<close> clauses of the sources distinguish four kinds:
  \<^verbatim>\<open>SolanaTrxError\<close> (carrying its \<^verbatim>\<open>result\<close>), \<^verbatim>\<open>EthereumError\<close> (carrying what
  \<^verbatim>\<open>getError()\<close> returns), any other class below \<^verbatim>\<open>Exception\<close> (class name and
  \<^verbatim>\<open>str(err)\<close>), and classes that derive from \<^verbatim>\<open>BaseException\<close> only, such as
  \<^verbatim>\<open>KeyboardInterrupt\<close>, \<^verbatim>\<open>SystemExit\<close> and \<^verbatim>\<open>asyncio.CancelledError\<close>, which
  \<^verbatim>\<open>except Exception\<close> does not catch.
\<close>

datatype exn =
    SolanaTrxError json
  | EthereumError json
  | Exception string string
  | BaseException string string

fun is_Exception :: "exn \<Rightarrow> bool" where
  "is_Exception (BaseException _ _) = False"
| "is_Exception _ = True"

text \<open>Message texts quote names the way \<^verbatim>\<open>repr\<close> does, between apostrophes.\<close>

definition quoted :: "string \<Rightarrow> string" where
  "quoted s = CHR 0x27 # s @ [CHR 0x27]"

definition unsupported_operand :: "string \<Rightarrow> string \<Rightarrow> string \<Rightarrow> exn" where
  "unsupported_operand opr l r =
     Exception ''TypeError''
       (''unsupported operand type(s) for '' @ opr @ '': '' @ quoted l @ '' and '' @ quoted r)"

text \<open>Sequencing of fallible steps: the first exception ends the computation.\<close>

definition bind :: "exn + 'a \<Rightarrow> ('a \<Rightarrow> exn + 'b) \<Rightarrow> exn + 'b" where
  "bind m f = (case m of Inl e \<Rightarrow> Inl e | Inr x \<Rightarrow> f x)"

section \<open>Python string and integer primitives\<close>

definition rjust :: "string \<Rightarrow> nat \<Rightarrow> char \<Rightarrow> string" where
  \<comment> \<open>\<^verbatim>\<open>s.rjust(width, fillchar)\<close>\<close>
  "rjust s width fillchar = replicate (width - length s) fillchar @ s"

definition lstrip :: "string \<Rightarrow> char \<Rightarrow> string" where
  \<comment> \<open>\<^verbatim>\<open>s.lstrip(c)\<close> for a one-character argument\<close>
  "lstrip s c = dropWhile (\<lambda>x. x = c) s"

definition hex_char :: "nat \<Rightarrow> char" where
  \<comment> \<open>the digit \<open>d < 16\<close> as one of \<^verbatim>\<open>0123456789abcdef\<close>\<close>
  "hex_char d = char_of (if d < 10 then 48 + d else 87 + d)"

fun hex_digits :: "nat \<Rightarrow> string" where
  "hex_digits n = (if n < 16 then [hex_char n] else hex_digits (n div 16) @ [hex_char (n mod 16)])"

declare hex_digits.simps [simp del]

definition hex :: "int \<Rightarrow> string" where
  \<comment> \<open>the builtin \<^verbatim>\<open>hex\<close> on an \<^verbatim>\<open>int\<close>\<close>
  "hex n = (if n < 0 then ''-0x'' @ hex_digits (nat (- n)) else ''0x'' @ hex_digits (nat n))"

definition hex_digit_value :: "char \<Rightarrow> nat option" where
  \<comment> \<open>the value of a digit in base 16: \<^verbatim>\<open>0-9\<close>, \<^verbatim>\<open>a-f\<close>, \<^verbatim>\<open>A-F\<close>\<close>
  "hex_digit_value c =
     (let n = (of_char c :: nat) in
      if 48 \<le> n \<and> n \<le> 57 then Some (n - 48)
      else if 97 \<le> n \<and> n \<le> 102 then Some (n - 87)
      else if 65 \<le> n \<and> n \<le> 70 then Some (n - 55)
      else None)"

definition int_space :: "char \<Rightarrow> bool" where
  \<comment> \<open>the characters \<^verbatim>\<open>int()\<close> skips around the literal: tab, LF, VT, FF, CR, space, NEL, NBSP\<close>
  "int_space c = (of_char c \<in> {9, 10, 11, 12, 13, 32, 133, 160 :: nat})"

text \<open>
  The digits of a literal, most significant first, with the accumulated value: a single
  underscore may separate two digits.
\<close>

fun digits_value :: "nat \<Rightarrow> string \<Rightarrow> nat option" where
  "digits_value acc [] = Some acc"
| "digits_value acc (c # cs) =
     (if c = CHR ''_'' then
        (case cs of
           [] \<Rightarrow> None
         | d # ds \<Rightarrow> (case hex_digit_value d of
                       None \<Rightarrow> None
                     | Some v \<Rightarrow> digits_value (16 * acc + v) ds))
      else (case hex_digit_value c of
              None \<Rightarrow> None
            | Some v \<Rightarrow> digits_value (16 * acc + v) cs))"

definition literal_value :: "string \<Rightarrow> nat option" where
  \<comment> \<open>a literal starts with a digit\<close>
  "literal_value s =
     (case s of
        [] \<Rightarrow> None
      | c # cs \<Rightarrow> (case hex_digit_value c of None \<Rightarrow> None | Some v \<Rightarrow> digits_value v cs))"

definition int16 :: "string \<Rightarrow> exn + int" where
  \<comment> \<open>\<^verbatim>\<open>int(s, 16)\<close> on a \<^verbatim>\<open>str\<close>: surrounding white space, an optional sign, an optional
      \<^verbatim>\<open>0x\<close> prefix (which one underscore may follow), then the literal\<close>
  "int16 s =
     (let s1 = rev (dropWhile int_space (rev (dropWhile int_space s)));
          neg = (take 1 s1 = ''-'');
          s2 = (if take 1 s1 = ''-'' \<or> take 1 s1 = ''+'' then drop 1 s1 else s1);
          s3 = (if take 2 s2 = ''0x'' \<or> take 2 s2 = ''0X''
                then (if take 1 (drop 2 s2) = ''_'' then drop 3 s2 else drop 2 s2)
                else s2)
      in case literal_value s3 of
           None \<Rightarrow> Inl (Exception ''ValueError'' (''invalid literal for int() with base 16: '' @ quoted s))
         | Some v \<Rightarrow> Inr (if neg then - int v else int v))"

section \<open>The block store (\<^verbatim>\<open>SolBlocksDB\<close>)\<close>

subsection \<open>Synthetic block hashes\<close>

definition generate_fake_block_hash :: "int \<Rightarrow> string" where
  "generate_fake_block_hash block_slot =
     (if block_slot < 0 then ''0x'' @ replicate 64 CHR ''0''
      else
        let hex_num = drop 2 (hex block_slot);
            num_len = length hex_num;
            hex_num = ''00'' @ rjust hex_num ((num_len div 2 + num_len mod 2) * 2) CHR ''0''
        in ''0x'' @ rjust hex_num 64 CHR ''f'')"

definition get_fake_block_slot :: "string \<Rightarrow> exn + int option" where
  "get_fake_block_slot hash_number =
     (let hash_number = lstrip (drop 2 hash_number) CHR ''f'' in
      if length hash_number > 12 \<or> take 2 hash_number \<noteq> ''00'' then Inr None
      else
        let hex_number = lstrip hash_number CHR ''0'' in
        if hex_number = [] then Inr (Some 0)
        else bind (int16 hex_number) (\<lambda>n. Inr (Some n)))"

text \<open>
  The synthetic pattern in the words of the specification: after the \<^verbatim>\<open>0x\<close>, a leading
  run of \<^verbatim>\<open>f\<close> characters, then the two characters \<^verbatim>\<open>00\<close>, with at most 12 characters
  remaining once the run of \<^verbatim>\<open>f\<close> is stripped.
\<close>

definition synthetic_pattern :: "string \<Rightarrow> bool" where
  "synthetic_pattern h =
     (let rest = dropWhile (\<lambda>c. c = CHR ''f'') (drop 2 h)
      in take 2 rest = ''00'' \<and> length rest \<le> 12)"

subsection \<open>The table \<^verbatim>\<open>solana_blocks\<close>\<close>

text \<open>
  A row has the columns of \<^verbatim>\<open>column_list\<close>. \<^verbatim>\<open>block_slot\<close> is the key the queries
  select and order by; the other columns may hold \<^verbatim>\<open>NULL\<close> (\<open>None\<close>), since
  \<^verbatim>\<open>set_block_list\<close> stores whatever the block object carries. A condition such as
  \<^verbatim>\<open>is_active = False\<close> holds for \<open>Some False\<close> only. The table is the list of its rows.
\<close>

record block_row =
  block_slot :: int
  block_hash :: "string option"
  block_time :: "int option"
  parent_block_slot :: "int option"
  is_finalized :: "bool option"
  is_active :: "bool option"

type_synonym solana_blocks = "block_row list"

subsection \<open>Synthetic block times\<close>

text \<open>
  \<^verbatim>\<open>math.ceil(k * self._one_block_sec)\<close> with \<^verbatim>\<open>_one_block_sec = 0.4\<close> is computed in
  double precision. The integer \<open>k\<close> is converted to the nearest double, and the conversion
  raises \<^verbatim>\<open>OverflowError\<close> when \<open>k\<close> rounds to \<open>2 ^ 1024\<close> or beyond; the product of the two
  doubles is rounded to the nearest double; \<^verbatim>\<open>math.ceil\<close> of a double is exact. A double
  has a significand of 53 bits, and both roundings take the even significand when two
  doubles are equally near.

  The double \<^verbatim>\<open>0.4\<close> is \<open>7205759403792794 / 2 ^ 54\<close> (\<^verbatim>\<open>0x1.999999999999ap-2\<close>). The
  double of \<open>k\<close> is an integer, so the exact product is a multiple of \<open>1 / 2 ^ 54\<close>, and
  since that multiple is 0 or has 53 bits at least, the rounded product is a multiple of
  \<open>1 / 2 ^ 54\<close> as well. The model computes with the absolute values in these units; the
  product is 0 or lies between 0.4 and \<open>2 ^ 1023\<close>, so that it neither underflows nor
  overflows.
\<close>

fun bit_length :: "nat \<Rightarrow> nat" where
  \<comment> \<open>the number of binary digits of \<open>n\<close>\<close>
  "bit_length n = (if n = 0 then 0 else Suc (bit_length (n div 2)))"

declare bit_length.simps [simp del]

definition round_half_even :: "nat \<Rightarrow> nat \<Rightarrow> nat" where
  \<comment> \<open>the integer nearest to \<open>n / 2 ^ sh\<close>, the even one when two are equally near\<close>
  "round_half_even n sh =
     (let q = n div 2 ^ sh; r = n mod 2 ^ sh
      in if 2 * r < 2 ^ sh then q
         else if 2 ^ sh < 2 * r then q + 1
         else if even q then q else q + 1)"

definition round_53 :: "nat \<Rightarrow> nat" where
  \<comment> \<open>\<open>n\<close> rounded to 53 significant bits\<close>
  "round_53 n = (let sh = bit_length n - 53 in round_half_even n sh * 2 ^ sh)"

definition one_block_sec :: nat where
  \<comment> \<open>the double \<^verbatim>\<open>0.4\<close> in units of \<open>1 / 2 ^ 54\<close>\<close>
  "one_block_sec = 7205759403792794"

definition ceil_block_sec :: "int \<Rightarrow> exn + int" where
  "ceil_block_sec k =
     (let m = round_53 (nat \<bar>k\<bar>)
      in if 2 ^ 1024 \<le> m
         then Inl (Exception ''OverflowError'' ''int too large to convert to float'')
         else let p = round_53 (m * one_block_sec)
              in Inr (if k < 0 then - (int p div 2 ^ 54) else - (- int p div 2 ^ 54)))"

text \<open>
  The two sub-selects of the query: the row with the greatest \<^verbatim>\<open>block_slot <= s\<close>
  (\<^verbatim>\<open>ORDER BY block_slot DESC LIMIT 1\<close>) and the row with the least \<^verbatim>\<open>block_slot >= s\<close>
  (\<^verbatim>\<open>ORDER BY block_slot LIMIT 1\<close>). Among rows of equal slot the first in table order is
  taken.
\<close>

primrec pick_max :: "block_row \<Rightarrow> block_row list \<Rightarrow> block_row" where
  "pick_max b [] = b"
| "pick_max b (r # rs) = pick_max (if block_slot b < block_slot r then r else b) rs"

primrec pick_min :: "block_row \<Rightarrow> block_row list \<Rightarrow> block_row" where
  "pick_min b [] = b"
| "pick_min b (r # rs) = pick_min (if block_slot r < block_slot b then r else b) rs"

definition nearest_before :: "solana_blocks \<Rightarrow> int \<Rightarrow> block_row option" where
  "nearest_before tbl s =
     (case filter (\<lambda>r. block_slot r \<le> s) tbl of [] \<Rightarrow> None | r # rs \<Rightarrow> Some (pick_max r rs))"

definition nearest_after :: "solana_blocks \<Rightarrow> int \<Rightarrow> block_row option" where
  "nearest_after tbl s =
     (case filter (\<lambda>r. block_slot r \<ge> s) tbl of [] \<Rightarrow> None | r # rs \<Rightarrow> Some (pick_min r rs))"

text \<open>
  A result row of the query has the four columns \<^verbatim>\<open>b_block_slot\<close>, \<^verbatim>\<open>b_block_time\<close>,
  \<^verbatim>\<open>n_block_slot\<close>, \<^verbatim>\<open>n_block_time\<close>. The row of the first sub-select is never equal to
  the row of the second (its first column is not \<^verbatim>\<open>NULL\<close>), so \<^verbatim>\<open>UNION DISTINCT\<close>
  keeps both. SQL leaves the order of the rows of a union open and \<^verbatim>\<open>fetchone()\<close> takes
  the first: the order is a parameter of the model.
\<close>

datatype union_order = LowerFirst | UpperFirst

type_synonym nearest_row = "int option \<times> int option \<times> int option \<times> int option"

definition nearest_blocks_query :: "union_order \<Rightarrow> solana_blocks \<Rightarrow> int \<Rightarrow> nearest_row list" where
  "nearest_blocks_query ord tbl s =
     (let lower = (case nearest_before tbl s of
                     None \<Rightarrow> []
                   | Some r \<Rightarrow> [(Some (block_slot r), block_time r, None, None)]);
          upper = (case nearest_after tbl s of
                     None \<Rightarrow> []
                   | Some r \<Rightarrow> [(None, None, Some (block_slot r), block_time r)])
      in case ord of LowerFirst \<Rightarrow> lower @ upper | UpperFirst \<Rightarrow> upper @ lower)"

definition fetchone :: "'a list \<Rightarrow> 'a option" where
  "fetchone rows = (case rows of [] \<Rightarrow> None | r # _ \<Rightarrow> Some r)"

definition generate_fake_block_time :: "union_order \<Rightarrow> int \<Rightarrow> solana_blocks \<Rightarrow> int \<Rightarrow> exn + int" where
  \<comment> \<open>\<open>genesis_timestamp\<close> is \<^verbatim>\<open>self._config.genesis_timestamp\<close>; the right operand of
      \<^verbatim>\<open>+\<close> and \<^verbatim>\<open>-\<close> is evaluated before the operator meets a \<^verbatim>\<open>None\<close> on its left\<close>
  "generate_fake_block_time ord genesis_timestamp tbl slot =
     (case fetchone (nearest_blocks_query ord tbl slot) of
        None \<Rightarrow> bind (ceil_block_sec slot) (\<lambda>d. Inr (d + genesis_timestamp))
      | Some (v0, v1, v2, v3) \<Rightarrow>
          (case v0 of
             Some nearest_block_slot \<Rightarrow>
               bind (ceil_block_sec (slot - nearest_block_slot)) (\<lambda>d.
                 case v1 of
                   None \<Rightarrow> Inl (unsupported_operand ''+'' ''NoneType'' ''int'')
                 | Some nearest_block_time \<Rightarrow> Inr (nearest_block_time + d))
           | None \<Rightarrow>
               (case v2 of
                  None \<Rightarrow> Inl (unsupported_operand ''-'' ''NoneType'' ''int'')
                | Some nearest_block_slot \<Rightarrow>
                    bind (ceil_block_sec (nearest_block_slot - slot)) (\<lambda>d.
                      case v3 of
                        None \<Rightarrow> Inl (unsupported_operand ''-'' ''NoneType'' ''int'')
                      | Some nearest_block_time \<Rightarrow> Inr (nearest_block_time - d)))))"

subsection \<open>Composing the returned block\<close>

text \<open>
  \<^verbatim>\<open>SolBlockInfo\<close> is declared in \<^verbatim>\<open>common_neon/utils\<close>; the fields used here are the
  ones the block store reads and writes. \<open>None\<close> in an optional field stands for
  \<^verbatim>\<open>None\<close>, also when the keyword is not passed to the constructor.
\<close>

record SolBlockInfo =
  info_block_slot :: int
  info_block_hash :: "string option"
  info_block_time :: "int option"
  info_parent_block_slot :: "int option"
  info_is_finalized :: "bool option"
  info_parent_block_hash :: "string option"

text \<open>
  A row fetched by the block queries: the six columns of \<^verbatim>\<open>column_list\<close> and, seventh,
  \<^verbatim>\<open>parent_block_hash\<close>. Every column can be \<^verbatim>\<open>NULL\<close> in an outer join.
\<close>

record value_list =
  v_block_slot :: "int option"
  v_block_hash :: "string option"
  v_block_time :: "int option"
  v_parent_block_slot :: "int option"
  v_is_finalized :: "bool option"
  v_is_active :: "bool option"
  v_parent_block_hash :: "string option"

definition check_block_hash :: "int \<Rightarrow> string option \<Rightarrow> string" where
  \<comment> \<open>\<^verbatim>\<open>block_hash or self._generate_fake_block_hash(block_slot)\<close>: \<^verbatim>\<open>None\<close> and the empty
      string are false\<close>
  "check_block_hash slot hash =
     (case hash of
        None \<Rightarrow> generate_fake_block_hash slot
      | Some h \<Rightarrow> if h = [] then generate_fake_block_hash slot else h)"

definition check_block_time :: "union_order \<Rightarrow> int \<Rightarrow> solana_blocks \<Rightarrow> int \<Rightarrow> int option \<Rightarrow> exn + int" where
  \<comment> \<open>\<^verbatim>\<open>block_time or self._generate_fake_block_time(block_slot)\<close>: \<^verbatim>\<open>None\<close> and 0 are false\<close>
  "check_block_time ord genesis_timestamp tbl slot time =
     (case time of
        None \<Rightarrow> generate_fake_block_time ord genesis_timestamp tbl slot
      | Some t \<Rightarrow> if t = 0 then generate_fake_block_time ord genesis_timestamp tbl slot
                  else Inr t)"

definition block_from_value ::
  "union_order \<Rightarrow> int \<Rightarrow> solana_blocks \<Rightarrow> int option \<Rightarrow> value_list option \<Rightarrow> exn + SolBlockInfo" where
  "block_from_value ord genesis_timestamp tbl slot_arg values =
     (case values of
        None \<Rightarrow>
          (case slot_arg of
             None \<Rightarrow> Inr \<lparr>info_block_slot = 0, info_block_hash = None, info_block_time = None,
                          info_parent_block_slot = None, info_is_finalized = None,
                          info_parent_block_hash = None\<rparr>
           | Some slot \<Rightarrow>
               bind (generate_fake_block_time ord genesis_timestamp tbl slot) (\<lambda>t.
                 Inr \<lparr>info_block_slot = slot,
                      info_block_hash = Some (generate_fake_block_hash slot),
                      info_block_time = Some t,
                      info_parent_block_slot = None, info_is_finalized = None,
                      info_parent_block_hash = Some (generate_fake_block_hash (slot - 1))\<rparr>))
      | Some vl \<Rightarrow>
          (case (case slot_arg of None \<Rightarrow> v_block_slot vl | Some slot \<Rightarrow> Some slot) of
             None \<Rightarrow>
               \<comment> \<open>neither the caller nor the row gives a slot: the first use of it raises\<close>
               (if v_block_hash vl = None \<or> v_block_hash vl = Some []
                then Inl (Exception ''TypeError''
                       (quoted ''<'' @ '' not supported between instances of ''
                        @ quoted ''NoneType'' @ '' and '' @ quoted ''int''))
                else if v_block_time vl = None \<or> v_block_time vl = Some 0
                then Inl (unsupported_operand ''*'' ''NoneType'' ''float'')
                else Inl (unsupported_operand ''-'' ''NoneType'' ''int''))
           | Some slot \<Rightarrow>
               bind (check_block_time ord genesis_timestamp tbl slot (v_block_time vl)) (\<lambda>t.
                 Inr \<lparr>info_block_slot = slot,
                      info_block_hash = Some (check_block_hash slot (v_block_hash vl)),
                      info_block_time = Some t,
                      info_parent_block_slot = None,
                      info_is_finalized = v_is_finalized vl,
                      info_parent_block_hash =
                        Some (check_block_hash (slot - 1) (v_parent_block_hash vl))\<rparr>)))"

subsection \<open>Writing blocks and switching branches\<close>

text \<open>
  \<^verbatim>\<open>set_block_list\<close> builds one value list per block and hands them to
  \<^verbatim>\<open>self._insert_batch\<close>, a method of \<^verbatim>\<open>BaseDB\<close> (\<^verbatim>\<open>indexer/base_db.py\<close>): the insert
  is a parameter \<open>insert_batch\<close> of the model. What the properties below need of it is
  stated by \<open>inserts_given_rows\<close>: a successful insert leaves in the table only rows that
  were there or that it was given.
\<close>

type_synonym insert_batch = "block_row list \<Rightarrow> solana_blocks \<Rightarrow> exn + solana_blocks"

definition inserts_given_rows :: "insert_batch \<Rightarrow> bool" where
  "inserts_given_rows ins =
     (\<forall>rows tbl tbl'. ins rows tbl = Inr tbl' \<longrightarrow> set tbl' \<subseteq> set tbl \<union> set rows)"

definition append_rows :: insert_batch where
  \<comment> \<open>the plain \<^verbatim>\<open>INSERT\<close> of all rows, used as the concrete instance\<close>
  "append_rows rows tbl = Inr (tbl @ rows)"

definition block_values :: "SolBlockInfo \<Rightarrow> block_row" where
  "block_values block =
     \<lparr>block_slot = info_block_slot block, block_hash = info_block_hash block,
      block_time = info_block_time block, parent_block_slot = info_parent_block_slot block,
      is_finalized = info_is_finalized block, is_active = info_is_finalized block\<rparr>"

definition set_block_list :: "insert_batch \<Rightarrow> SolBlockInfo list \<Rightarrow> solana_blocks \<Rightarrow> exn + solana_blocks" where
  "set_block_list insert_batch iter_block tbl = insert_batch (map block_values iter_block) tbl"

text \<open>
  Both branch operations build \<^verbatim>\<open>WHERE block_slot IN (%s,...)\<close> from the list; for the
  empty list the statement reads \<^verbatim>\<open>IN ()\<close>, which the database rejects.
\<close>

definition empty_in_list :: exn where
  "empty_in_list =
     Exception ''ProgrammingError'' (''syntax error at or near '' @ [CHR 0x22, CHR '')'', CHR 0x22])"

definition finalize_block_list :: "int \<Rightarrow> int list \<Rightarrow> solana_blocks \<Rightarrow> exn + solana_blocks" where
  "finalize_block_list base_block_slot block_slot_list tbl =
     (if block_slot_list = [] then Inl empty_in_list
      else
        let tbl1 = map (\<lambda>r. if block_slot r \<in> set block_slot_list
                             then r\<lparr>is_finalized := Some True, is_active := Some True\<rparr> else r) tbl
        in Inr (filter (\<lambda>r. \<not> (block_slot r > base_block_slot
                                 \<and> block_slot r < last block_slot_list
                                 \<and> is_active r = Some False)) tbl1))"

definition activate_block_list :: "int \<Rightarrow> int list \<Rightarrow> solana_blocks \<Rightarrow> exn + solana_blocks" where
  "activate_block_list base_block_slot block_slot_list tbl =
     (let tbl1 = map (\<lambda>r. if block_slot r > base_block_slot
                          then r\<lparr>is_active := Some False\<rparr> else r) tbl
      in if block_slot_list = [] then Inl empty_in_list
         else Inr (map (\<lambda>r. if block_slot r \<in> set block_slot_list
                              then r\<lparr>is_active := Some True\<rparr> else r) tbl1))"

text \<open>A sequence of mutations of the block store; the first failing one ends it.\<close>

datatype block_op =
    SetBlockList "SolBlockInfo list"
  | FinalizeBlockList int "int list"
  | ActivateBlockList int "int list"

fun apply_block_op :: "insert_batch \<Rightarrow> block_op \<Rightarrow> solana_blocks \<Rightarrow> exn + solana_blocks" where
  "apply_block_op ins (SetBlockList blocks) tbl = set_block_list ins blocks tbl"
| "apply_block_op ins (FinalizeBlockList base slots) tbl = finalize_block_list base slots tbl"
| "apply_block_op ins (ActivateBlockList base slots) tbl = activate_block_list base slots tbl"

fun apply_block_ops :: "insert_batch \<Rightarrow> block_op list \<Rightarrow> solana_blocks \<Rightarrow> exn + solana_blocks" where
  "apply_block_ops ins [] tbl = Inr tbl"
| "apply_block_ops ins (x # xs) tbl = bind (apply_block_op ins x tbl) (apply_block_ops ins xs)"

text \<open>
  The stored neighbours of a requested slot, as the specification speaks of them: the row
  of the greatest stored slot not above \<open>s\<close> and the row of the least stored slot not
  below \<open>s\<close>.
\<close>

definition nearest_lower :: "solana_blocks \<Rightarrow> int \<Rightarrow> block_row \<Rightarrow> bool" where
  "nearest_lower tbl s lo =
     (lo \<in> set tbl \<and> block_slot lo \<le> s
      \<and> (\<forall>x\<in>set tbl. block_slot x \<le> s \<longrightarrow> block_slot x \<le> block_slot lo))"

definition nearest_upper :: "solana_blocks \<Rightarrow> int \<Rightarrow> block_row \<Rightarrow> bool" where
  "nearest_upper tbl s up =
     (up \<in> set tbl \<and> s \<le> block_slot up
      \<and> (\<forall>x\<in>set tbl. s \<le> block_slot x \<longrightarrow> block_slot up \<le> block_slot x))"

text \<open>
  The invariant of the flags, and the condition under which \<^verbatim>\<open>activate_block_list\<close>
  keeps it: every finalized row above the base is in the list that is activated again.
\<close>

definition finalized_implies_active :: "solana_blocks \<Rightarrow> bool" where
  "finalized_implies_active tbl =
     (\<forall>r\<in>set tbl. is_finalized r = Some True \<longrightarrow> is_active r = Some True)"

definition activate_covers_finalized :: "int \<Rightarrow> int list \<Rightarrow> solana_blocks \<Rightarrow> bool" where
  "activate_covers_finalized base slots tbl =
     (\<forall>r\<in>set tbl. is_finalized r = Some True \<and> base < block_slot r \<longrightarrow> block_slot r \<in> set slots)"

fun covering_ops :: "insert_batch \<Rightarrow> block_op list \<Rightarrow> solana_blocks \<Rightarrow> bool" where
  "covering_ops ins [] tbl = True"
| "covering_ops ins (x # xs) tbl =
     ((case x of ActivateBlockList base slots \<Rightarrow> activate_covers_finalized base slots tbl
               | _ \<Rightarrow> True)
      \<and> (case apply_block_op ins x tbl of
           Inl e \<Rightarrow> True
         | Inr tbl' \<Rightarrow> covering_ops ins xs tbl'))"

section \<open>The mempool transaction cache (\<^verbatim>\<open>MPTxDict\<close>)\<close>

text \<open>
  An item of the cache. \<^verbatim>\<open>NeonTx\<close> is declared in \<^verbatim>\<open>common_neon/eth_proto\<close>; the cache
  only stores and returns it, so it is the type parameter \<open>'tx\<close>. The field \<open>error\<close> holds
  the text of \<^verbatim>\<open>EthereumError(str(exc))\<close>.
\<close>

record 'tx Item =
  last_time :: int
  neon_sig :: string
  neon_tx :: 'tx
  error :: "string option"

record 'tx MPTxDict =
  neon_tx_dict :: "string \<rightharpoonup> 'tx Item"
  neon_tx_queue :: "'tx Item list"

definition life_time :: int where
  "life_time = 15"

definition MPTxDict_init :: "'tx MPTxDict" where
  "MPTxDict_init = \<lparr>neon_tx_dict = Map.empty, neon_tx_queue = []\<rparr>"

definition get_time :: "rat \<Rightarrow> int" where
  \<comment> \<open>\<^verbatim>\<open>math.ceil(time.time())\<close>; the argument is the reading of the clock\<close>
  "get_time clock = \<lceil>clock\<rceil>"

definition MPTxDict_add :: "rat \<Rightarrow> string \<Rightarrow> 'tx \<Rightarrow> string option \<Rightarrow> 'tx MPTxDict \<Rightarrow> 'tx MPTxDict" where
  \<comment> \<open>\<open>exc\<close> is \<open>None\<close> or the text \<^verbatim>\<open>str(exc)\<close> of the exception\<close>
  "MPTxDict_add clock sig tx exc self =
     (let now = get_time clock;
          item = \<lparr>last_time = now, neon_sig = sig, neon_tx = tx, error = exc\<rparr>
      in self\<lparr>neon_tx_queue := neon_tx_queue self @ [item],
              neon_tx_dict := (neon_tx_dict self)(sig \<mapsto> item)\<rparr>)"

datatype 'tx cached = NeonTx 'tx | EthereumErr string | NotCached

definition MPTxDict_get :: "string \<Rightarrow> 'tx MPTxDict \<Rightarrow> 'tx cached" where
  "MPTxDict_get sig self =
     (case neon_tx_dict self sig of
        None \<Rightarrow> NotCached
      | Some item \<Rightarrow> (case error item of Some e \<Rightarrow> EthereumErr e | None \<Rightarrow> NeonTx (neon_tx item)))"

text \<open>
  The loop of \<^verbatim>\<open>clear\<close>: while the queue is not empty and its first item is older than
  the bound, pop it and drop its signature from the dictionary.
\<close>

primrec popleft_expired ::
  "int \<Rightarrow> 'tx Item list \<Rightarrow> (string \<rightharpoonup> 'tx Item) \<Rightarrow> (string \<rightharpoonup> 'tx Item) \<times> 'tx Item list" where
  "popleft_expired bound [] dict = (dict, [])"
| "popleft_expired bound (item # queue) dict =
     (if last_time item < bound
      then popleft_expired bound queue (dict(neon_sig item := None))
      else (dict, item # queue))"

definition MPTxDict_clear :: "rat \<Rightarrow> 'tx MPTxDict \<Rightarrow> 'tx MPTxDict" where
  "MPTxDict_clear clock self =
     (if length (neon_tx_queue self) = 0 then self
      else
        let bound = max (get_time clock - life_time) 0;
            (dict, queue) = popleft_expired bound (neon_tx_queue self) (neon_tx_dict self)
        in self\<lparr>neon_tx_queue := queue, neon_tx_dict := dict\<rparr>)"

text \<open>Sequences of calls, each with the reading of the clock at the call.\<close>

datatype 'tx cache_op = Add rat string 'tx "string option" | Clear rat

fun apply_cache_op :: "'tx cache_op \<Rightarrow> 'tx MPTxDict \<Rightarrow> 'tx MPTxDict" where
  "apply_cache_op (Add clock sig tx exc) self = MPTxDict_add clock sig tx exc self"
| "apply_cache_op (Clear clock) self = MPTxDict_clear clock self"

primrec run_cache_ops :: "'tx cache_op list \<Rightarrow> 'tx MPTxDict \<Rightarrow> 'tx MPTxDict" where
  "run_cache_ops [] self = self"
| "run_cache_ops (x # xs) self = run_cache_ops xs (apply_cache_op x self)"

text \<open>
  Conditions on a sequence of calls: no call adds the signature \<open>sig\<close>; every sweep is
  earlier than a given time; every call adds a signature that no item of the queue carries
  at that moment.
\<close>

fun adds_sig :: "string \<Rightarrow> 'tx cache_op \<Rightarrow> bool" where
  "adds_sig sig (Add clock sig' tx exc) = (sig' = sig)"
| "adds_sig sig (Clear clock) = False"

fun sweeps_before :: "rat \<Rightarrow> 'tx cache_op \<Rightarrow> bool" where
  "sweeps_before t (Add clock sig tx exc) = True"
| "sweeps_before t (Clear clock) = (clock < t)"

fun fresh_adds :: "'tx cache_op list \<Rightarrow> 'tx MPTxDict \<Rightarrow> bool" where
  "fresh_adds [] self = True"
| "fresh_adds (x # xs) self =
     ((case x of Add clock sig tx exc \<Rightarrow> sig \<notin> neon_sig ` set (neon_tx_queue self)
               | Clear clock \<Rightarrow> True)
      \<and> fresh_adds xs (apply_cache_op x self))"

text \<open>
  Invariants of the cache: every item the dictionary holds is in the queue, under its own
  signature; and, stronger, the dictionary holds exactly the items of the queue, whose
  signatures are pairwise different.
\<close>

definition dict_in_queue :: "'tx MPTxDict \<Rightarrow> bool" where
  "dict_in_queue self =
     (\<forall>k i. neon_tx_dict self k = Some i \<longrightarrow> i \<in> set (neon_tx_queue self) \<and> neon_sig i = k)"

definition dict_is_queue :: "'tx MPTxDict \<Rightarrow> bool" where
  "dict_is_queue self =
     (dict_in_queue self
      \<and> (\<forall>i\<in>set (neon_tx_queue self). neon_tx_dict self (neon_sig i) = Some i)
      \<and> distinct (map neon_sig (neon_tx_queue self)))"

text \<open>
  The state of the cache after an item was added under the signature \<open>sig\<close> with the time
  \<open>T\<close>: the queue splits into items whose time is not after \<open>T\<close> and, behind them, items
  of other signatures; and if the dictionary has the signature, an item of the queue
  carries it.
\<close>

definition old_then_other :: "int \<Rightarrow> string \<Rightarrow> 'tx MPTxDict \<Rightarrow> bool" where
  "old_then_other T sig self =
     ((\<exists>pre post. neon_tx_queue self = pre @ post
          \<and> (\<forall>x\<in>set pre. last_time x \<le> T) \<and> (\<forall>x\<in>set post. neon_sig x \<noteq> sig))
      \<and> (neon_tx_dict self sig \<noteq> None \<longrightarrow> sig \<in> neon_sig ` set (neon_tx_queue self)))"


section \<open>The mempool service (\<^verbatim>\<open>MPService\<close>)\<close>

text \<open>
  The request classes (\<^verbatim>\<open>mempool_api\<close>, \<^verbatim>\<open>neon_py.maintenance_api\<close>) and the mempool
  itself (\<^verbatim>\<open>MemPool\<close>, \<^verbatim>\<open>MemPoolReplicator\<close>) are declared outside the four source files.
  A request object is modelled by what \<^verbatim>\<open>on_data_received\<close> and the two dispatchers read
  of it: the outcome of the two \<^verbatim>\<open>issubclass\<close> tests, the name of its class, and the
  attributes \<^verbatim>\<open>req_id\<close>, \<^verbatim>\<open>type\<close> and \<^verbatim>\<open>command\<close>, each \<open>None\<close> when the object has no
  such attribute; the rest of the object is the payload \<open>'p\<close>, which only the methods of the
  mempool read. Those methods are parameters: each takes the request and returns a reply
  or raises.
\<close>

datatype MPRequestType = SendTransaction | GetLastTxNonce | GetTxByHash | GetGasPrice | OtherType string

datatype MaintenanceCommand =
  SuspendMemPool | ResumeMemPool | ReplicateRequests | ReplicateTxsBunch | OtherCommand string

record 'p request =
  class_name :: string
  is_MPRequest :: bool
  is_MaintenanceRequest :: bool
  req_id :: "string option"
  req_type :: "MPRequestType option"
  command :: "MaintenanceCommand option"
  payload :: 'p

text \<open>
  What a call returns: a \<^verbatim>\<open>Result\<close> with its status text, any other value of the mempool,
  or \<^verbatim>\<open>None\<close>.
\<close>

datatype 'v reply = Result string | Value 'v | NoneValue

record ('p, 'v) MemPool =
  schedule_mp_tx_request :: "'p request \<Rightarrow> exn + 'v reply"
  get_pending_tx_nonce :: "'p request \<Rightarrow> exn + 'v reply"
  get_pending_tx_by_hash :: "'p request \<Rightarrow> exn + 'v reply"
  get_gas_price :: "exn + 'v reply"
  suspend_processing :: "exn + 'v reply"
  resume_processing :: "exn + 'v reply"

record ('p, 'v) MemPoolReplicator =
  replicate_peers :: "'p request \<Rightarrow> exn + 'v reply"
  on_mp_tx_bunch :: "'p request \<Rightarrow> exn + 'v reply"

text \<open>
  The service: \<^verbatim>\<open>self._mempool\<close> is \<^verbatim>\<open>None\<close> and \<^verbatim>\<open>self._replicator\<close> does not exist
  until \<^verbatim>\<open>run\<close> has set them.
\<close>

record ('p, 'v) MPService =
  mempool :: "('p, 'v) MemPool option"
  replicator :: "('p, 'v) MemPoolReplicator option"

text \<open>The lines written to the log, with the request id of the logging context if any.\<close>

datatype log_line =
    UnknownRequestClass string
  | UnknownRequestType MPRequestType
  | UnknownCommand MaintenanceCommand
  | GotReplicationBunch
  | FailedToProcess string MaintenanceCommand exn

definition no_attribute :: "string \<Rightarrow> string \<Rightarrow> exn" where
  "no_attribute cls name =
     Exception ''AttributeError'' (quoted cls @ '' object has no attribute '' @ quoted name)"

definition process_mp_request ::
  "('p, 'v) MPService \<Rightarrow> 'p request \<Rightarrow> log_line list \<Rightarrow> (exn + 'v reply) \<times> log_line list" where
  "process_mp_request self mp_request logs =
     (case req_type mp_request of
        None \<Rightarrow> (Inl (no_attribute (class_name mp_request) ''type''), logs)
      | Some ty \<Rightarrow>
          (case ty of
             OtherType _ \<Rightarrow> (Inr NoneValue, logs @ [UnknownRequestType ty])
           | _ \<Rightarrow>
             (case mempool self of
                None \<Rightarrow>
                  (Inl (no_attribute ''NoneType''
                     (case ty of SendTransaction \<Rightarrow> ''schedule_mp_tx_request''
                               | GetLastTxNonce \<Rightarrow> ''get_pending_tx_nonce''
                               | GetTxByHash \<Rightarrow> ''get_pending_tx_by_hash''
                               | _ \<Rightarrow> ''get_gas_price'')), logs)
              | Some mp \<Rightarrow>
                  (case ty of
                     SendTransaction \<Rightarrow> (schedule_mp_tx_request mp mp_request, logs)
                   | GetLastTxNonce \<Rightarrow> (get_pending_tx_nonce mp mp_request, logs)
                   | GetTxByHash \<Rightarrow> (get_pending_tx_by_hash mp mp_request, logs)
                   | _ \<Rightarrow> (get_gas_price mp, logs)))))"

definition process_maintenance_request ::
  "('p, 'v) MPService \<Rightarrow> 'p request \<Rightarrow> log_line list \<Rightarrow> (exn + 'v reply) \<times> log_line list" where
  "process_maintenance_request self rq logs =
     (case command rq of
        None \<Rightarrow> (Inl (no_attribute (class_name rq) ''command''), logs)
      | Some c \<Rightarrow>
          (case c of
             SuspendMemPool \<Rightarrow>
               (case mempool self of
                  None \<Rightarrow> (Inl (no_attribute ''NoneType'' ''suspend_processing''), logs)
                | Some mp \<Rightarrow> (suspend_processing mp, logs))
           | ResumeMemPool \<Rightarrow>
               (case mempool self of
                  None \<Rightarrow> (Inl (no_attribute ''NoneType'' ''resume_processing''), logs)
                | Some mp \<Rightarrow> (resume_processing mp, logs))
           | ReplicateRequests \<Rightarrow>
               (case replicator self of
                  None \<Rightarrow> (Inl (no_attribute ''MPService'' ''_replicator''), logs)
                | Some r \<Rightarrow> (replicate_peers r rq, logs))
           | ReplicateTxsBunch \<Rightarrow>
               (case replicator self of
                  None \<Rightarrow> (Inl (no_attribute ''MPService'' ''_replicator''), logs @ [GotReplicationBunch])
                | Some r \<Rightarrow> (on_mp_tx_bunch r rq, logs @ [GotReplicationBunch]))
           | OtherCommand _ \<Rightarrow> (Inr NoneValue, logs @ [UnknownCommand c])))"

text \<open>
  The body of the \<^verbatim>\<open>try\<close> statement of \<^verbatim>\<open>on_data_received\<close>: \<open>Inr (Some r)\<close> when one of
  the two \<^verbatim>\<open>return\<close> statements is reached, \<open>Inr None\<close> when the body ends after logging
  the unknown class.
\<close>

definition handle_request ::
  "('p, 'v) MPService \<Rightarrow> 'p request \<Rightarrow> log_line list \<Rightarrow> (exn + 'v reply option) \<times> log_line list" where
  "handle_request self mp_request logs =
     (if is_MPRequest mp_request then
        (case process_mp_request self mp_request logs of
           (Inl e, logs') \<Rightarrow> (Inl e, logs')
         | (Inr r, logs') \<Rightarrow> (Inr (Some r), logs'))
      else if is_MaintenanceRequest mp_request then
        (case process_maintenance_request self mp_request logs of
           (Inl e, logs') \<Rightarrow> (Inl e, logs')
         | (Inr r, logs') \<Rightarrow> (Inr (Some r), logs'))
      else (Inr None, logs @ [UnknownRequestClass (class_name mp_request)]))"

definition on_data_received ::
  "('p, 'v) MPService \<Rightarrow> 'p request \<Rightarrow> log_line list \<Rightarrow> (exn + 'v reply) \<times> log_line list" where
  "on_data_received self mp_request logs =
     (case handle_request self mp_request logs of
        (Inr (Some r), logs') \<Rightarrow> (Inr r, logs')
      | (Inr None, logs') \<Rightarrow> (Inr (Result ''Unexpected problem''), logs')
      | (Inl err, logs') \<Rightarrow>
          if is_Exception err then
            (case req_id mp_request of
               None \<Rightarrow> (Inl (no_attribute (class_name mp_request) ''req_id''), logs')
             | Some rid \<Rightarrow>
                 (case command mp_request of
                    None \<Rightarrow> (Inl (no_attribute (class_name mp_request) ''command''), logs')
                  | Some c \<Rightarrow>
                      (Inr (Result ''Request failed''), logs' @ [FailedToProcess rid c err])))
          else (Inl err, logs'))"

text \<open>
  A mempool every method of which raises the given exception, for the examples.
\<close>

definition failing_mempool :: "exn \<Rightarrow> (unit, unit) MemPool" where
  "failing_mempool e =
     \<lparr>schedule_mp_tx_request = (\<lambda>_. Inl e), get_pending_tx_nonce = (\<lambda>_. Inl e),
      get_pending_tx_by_hash = (\<lambda>_. Inl e), get_gas_price = Inl e,
      suspend_processing = Inl e, resume_processing = Inl e\<rparr>"


section \<open>The JSON-RPC front (\<^verbatim>\<open>EthereumModel\<close>, \<^verbatim>\<open>SolanaProxyPlugin\<close>)\<close>

subsection \<open>Operations on Python values\<close>

definition type_name :: "json \<Rightarrow> string" where
  "type_name v =
     (case v of JNull \<Rightarrow> ''NoneType'' | JBool _ \<Rightarrow> ''bool'' | JInt _ \<Rightarrow> ''int''
      | JFloat _ \<Rightarrow> ''float'' | JStr _ \<Rightarrow> ''str'' | JList _ \<Rightarrow> ''list'' | JObj _ \<Rightarrow> ''dict'')"

definition truthy :: "json \<Rightarrow> bool" where
  \<comment> \<open>the truth value of \<^verbatim>\<open>if v:\<close>\<close>
  "truthy v =
     (case v of JNull \<Rightarrow> False | JBool b \<Rightarrow> b | JInt n \<Rightarrow> n \<noteq> 0 | JFloat x \<Rightarrow> x \<noteq> 0
      | JStr s \<Rightarrow> s \<noteq> [] | JList xs \<Rightarrow> xs \<noteq> [] | JObj kvs \<Rightarrow> kvs \<noteq> [])"

definition equals_zero :: "json \<Rightarrow> bool" where
  \<comment> \<open>\<^verbatim>\<open>v == 0\<close>\<close>
  "equals_zero v =
     (case v of JInt n \<Rightarrow> n = 0 | JBool b \<Rightarrow> \<not> b | JFloat x \<Rightarrow> x = 0 | _ \<Rightarrow> False)"

definition subscript :: "json \<Rightarrow> string \<Rightarrow> exn + json" where
  \<comment> \<open>\<^verbatim>\<open>v[key]\<close> for a string key\<close>
  "subscript v key =
     (case v of
        JObj kvs \<Rightarrow> (case map_of kvs key of
                      None \<Rightarrow> Inl (Exception ''KeyError'' (quoted key))
                    | Some x \<Rightarrow> Inr x)
      | JList _ \<Rightarrow> Inl (Exception ''TypeError'' ''list indices must be integers or slices, not str'')
      | JStr _ \<Rightarrow> Inl (Exception ''TypeError'' ''string indices must be integers'')
      | _ \<Rightarrow> Inl (Exception ''TypeError'' (quoted (type_name v) @ '' object is not subscriptable'')))"


definition setitem :: "json \<Rightarrow> string \<Rightarrow> json \<Rightarrow> exn + json" where
  \<comment> \<open>\<^verbatim>\<open>v[key] = x\<close> for a string key; the result is the object after the assignment\<close>
  "setitem v key x =
     (case v of
        JObj kvs \<Rightarrow> Inr (JObj (if key \<in> fst ` set kvs
                               then map (\<lambda>(k, y). if k = key then (k, x) else (k, y)) kvs
                               else kvs @ [(key, x)]))
      | JList _ \<Rightarrow> Inl (Exception ''TypeError'' ''list indices must be integers or slices, not str'')
      | _ \<Rightarrow> Inl (Exception ''TypeError''
                 (quoted (type_name v) @ '' object does not support item assignment'')))"

definition iterate :: "json \<Rightarrow> exn + json list" where
  \<comment> \<open>the values a \<^verbatim>\<open>for\<close> loop or a \<^verbatim>\<open>*\<close> argument takes from \<open>v\<close>\<close>
  "iterate v =
     (case v of
        JList xs \<Rightarrow> Inr xs
      | JStr s \<Rightarrow> Inr (map (\<lambda>c. JStr [c]) s)
      | JObj kvs \<Rightarrow> Inr (map (\<lambda>(k, _). JStr k) kvs)
      | _ \<Rightarrow> Inl (Exception ''TypeError'' (quoted (type_name v) @ '' object is not iterable'')))"

definition hex_of :: "json \<Rightarrow> exn + string" where
  \<comment> \<open>the builtin \<^verbatim>\<open>hex\<close> on any value; \<^verbatim>\<open>bool\<close> is a subclass of \<^verbatim>\<open>int\<close>\<close>
  "hex_of v =
     (case v of
        JInt n \<Rightarrow> Inr (hex n)
      | JBool b \<Rightarrow> Inr (hex (if b then 1 else 0))
      | _ \<Rightarrow> Inl (Exception ''TypeError''
                 (quoted (type_name v) @ '' object cannot be interpreted as an integer'')))"

definition int16_of :: "json \<Rightarrow> exn + int" where
  \<comment> \<open>\<^verbatim>\<open>int(v, 16)\<close> on any value\<close>
  "int16_of v =
     (case v of
        JStr s \<Rightarrow> int16 s
      | _ \<Rightarrow> Inl (Exception ''TypeError'' ''int() can't convert non-string with explicit base''))"

definition lower_char :: "char \<Rightarrow> char" where
  \<comment> \<open>the upper-case letters below code point 256 are A-Z and 192-222 without 215\<close>
  "lower_char c =
     (let n = (of_char c :: nat)
      in if (65 \<le> n \<and> n \<le> 90) \<or> (192 \<le> n \<and> n \<le> 222 \<and> n \<noteq> 215) then char_of (n + 32) else c)"

definition lower :: "json \<Rightarrow> exn + string" where
  \<comment> \<open>\<^verbatim>\<open>v.lower()\<close>\<close>
  "lower v =
     (case v of
        JStr s \<Rightarrow> Inr (map lower_char s)
      | _ \<Rightarrow> Inl (no_attribute (type_name v) ''lower''))"

subsection \<open>Blocks as JSON\<close>

text \<open>
  What \<^verbatim>\<open>EthereumModel\<close> calls outside the four source files, and the two handlers that
  decode transactions with \<^verbatim>\<open>rlp\<close> and \<^verbatim>\<open>Web3.keccak\<close>, are parameters: the methods of
  \<^verbatim>\<open>IndexerDB\<close>; \<^verbatim>\<open>base58.b58decode(v).hex()\<close>; \<^verbatim>\<open>eth_getTransactionReceipt\<close> and
  \<^verbatim>\<open>eth_getTransactionByHash\<close>; and \<^verbatim>\<open>str\<close> on a value, for messages.
  \<^verbatim>\<open>get_block_info\<close> returns \<^verbatim>\<open>None\<close> or a tuple of three values.
\<close>

record model_env =
  get_block_info :: "json \<Rightarrow> exn + (json \<times> json \<times> json) option"
  get_eth_trx_sig_by_signature :: "json \<Rightarrow> exn + json"
  get_slot_by_hash :: "string \<Rightarrow> exn + json"
  get_slot_by_number :: "json \<Rightarrow> exn + json"
  get_last_block_height :: "exn + json"
  eth_getTransactionReceipt :: "json \<Rightarrow> exn + json"
  eth_getTransactionByHash :: "json \<Rightarrow> exn + json"
  b58decode_hex :: "json \<Rightarrow> exn + string"
  str_of :: "json \<Rightarrow> string"

text \<open>
  The loop of \<^verbatim>\<open>getBlockBySlot\<close> over the signatures of the block, with the three
  variables it updates: \<^verbatim>\<open>transactions\<close>, \<^verbatim>\<open>gasUsed\<close> and \<^verbatim>\<open>trx_index\<close>.
\<close>

fun block_transactions ::
  "model_env \<Rightarrow> json \<Rightarrow> json list \<Rightarrow> json list \<times> int \<times> int \<Rightarrow> exn + json list \<times> int \<times> int" where
  "block_transactions env full [] acc = Inr acc"
| "block_transactions env full (signature # rest) (transactions, gasUsed, trx_index) =
     bind (get_eth_trx_sig_by_signature env signature) (\<lambda>eth_trx.
       if eth_trx = JNull then block_transactions env full rest (transactions, gasUsed, trx_index)
       else
         bind (subscript eth_trx ''idx'') (\<lambda>idx.
           if \<not> equals_zero idx
           then block_transactions env full rest (transactions, gasUsed, trx_index)
           else
             bind (subscript eth_trx ''eth'') (\<lambda>eth.
             bind (eth_getTransactionReceipt env eth) (\<lambda>trx_receipt.
             bind (if trx_receipt = JNull then Inr gasUsed
                   else bind (subscript trx_receipt ''gasUsed'') (\<lambda>g.
                        bind (int16_of g) (\<lambda>n. Inr (gasUsed + n)))) (\<lambda>gasUsed.
               if truthy full then
                 bind (eth_getTransactionByHash env eth) (\<lambda>trx.
                   if trx = JNull
                   then block_transactions env full rest (transactions, gasUsed, trx_index)
                   else
                     bind (setitem trx ''transactionIndex'' (JStr (hex trx_index))) (\<lambda>trx.
                       block_transactions env full rest
                         (transactions @ [trx], gasUsed, trx_index + 1)))
               else block_transactions env full rest
                      (transactions @ [eth], gasUsed, trx_index))))))"

definition getBlockBySlot :: "model_env \<Rightarrow> json \<Rightarrow> json \<Rightarrow> exn + json" where
  "getBlockBySlot env slot full =
     bind (get_block_info env slot) (\<lambda>block.
       case block of
         None \<Rightarrow> Inr JNull
       | Some (_, _, block_info) \<Rightarrow>
           bind (subscript block_info ''signatures'') (\<lambda>signatures.
           bind (iterate signatures) (\<lambda>signature_list.
           bind (block_transactions env full signature_list ([], 0, 0))
             (\<lambda>(transactions, gasUsed, trx_index).
           bind (subscript block_info ''blockhash'') (\<lambda>blockhash.
           bind (b58decode_hex env blockhash) (\<lambda>hash_hex.
           bind (hex_of slot) (\<lambda>number.
           bind (subscript block_info ''previousBlockhash'') (\<lambda>previousBlockhash.
           bind (b58decode_hex env previousBlockhash) (\<lambda>parent_hex.
           bind (subscript block_info ''blockTime'') (\<lambda>blockTime.
           bind (hex_of blockTime) (\<lambda>timestamp.
             Inr (JObj
               [(''gasUsed'', JStr (hex gasUsed)),
                (''hash'', JStr (''0x'' @ hash_hex)),
                (''number'', JStr number),
                (''parentHash'', JStr (''0x'' @ parent_hex)),
                (''timestamp'', JStr timestamp),
                (''transactions'', JList transactions),
                (''logsBloom'', JStr (''0x'' @ replicate 512 CHR ''0'')),
                (''gasLimit'', JStr ''0x6691b7'')]))))))))))))"

definition process_block_tag :: "model_env \<Rightarrow> json \<Rightarrow> exn + json" where
  "process_block_tag env tag =
     (if tag = JStr ''latest'' then get_last_block_height env
      else if tag = JStr ''earliest'' \<or> tag = JStr ''pending''
      then Inl (Exception ''Exception'' (''Invalid tag '' @ str_of env tag))
      else (case tag of
              JStr s \<Rightarrow> bind (int16 s) (\<lambda>n. Inr (JInt n))
            | JInt n \<Rightarrow> Inr tag
            | JBool b \<Rightarrow> Inr tag
            | _ \<Rightarrow> Inl (Exception ''Exception'' (''Failed to parse block tag: '' @ str_of env tag))))"

definition eth_getBlockByHash :: "model_env \<Rightarrow> json \<Rightarrow> json \<Rightarrow> exn + json" where
  "eth_getBlockByHash env hash full =
     bind (lower hash) (\<lambda>hash.
     bind (get_slot_by_hash env hash) (\<lambda>slot.
       if slot = JNull then Inr JNull else getBlockBySlot env slot full))"

definition eth_getBlockByNumber :: "model_env \<Rightarrow> json \<Rightarrow> json \<Rightarrow> exn + json" where
  "eth_getBlockByNumber env tag full =
     bind (process_block_tag env tag) (\<lambda>block_number.
     bind (get_slot_by_number env block_number) (\<lambda>slot.
       if slot = JNull then Inr JNull else getBlockBySlot env slot full))"

text \<open>
  The shape of a block object, in the words of the specification but for the length of
  \<^verbatim>\<open>logsBloom\<close>: an object with exactly the eight fields, \<^verbatim>\<open>gasLimit\<close> being \<^verbatim>\<open>0x6691b7\<close>
  and \<^verbatim>\<open>logsBloom\<close> being \<^verbatim>\<open>0x\<close> followed by the hexadecimal digits of \<open>n\<close> zero bytes.
\<close>

definition block_shape :: "nat \<Rightarrow> json \<Rightarrow> bool" where
  "block_shape n v =
     (case v of
        JObj kvs \<Rightarrow>
          set (map fst kvs) = {''hash'', ''number'', ''parentHash'', ''timestamp'',
                               ''transactions'', ''gasUsed'', ''gasLimit'', ''logsBloom''}
          \<and> distinct (map fst kvs)
          \<and> map_of kvs ''gasLimit'' = Some (JStr ''0x6691b7'')
          \<and> map_of kvs ''logsBloom'' = Some (JStr (''0x'' @ concat (replicate n ''00'')))
          \<and> (\<exists>txs. map_of kvs ''transactions'' = Some (JList txs))
      | _ \<Rightarrow> False)"

subsection \<open>Dispatching a request\<close>








text \<open>
  A small instance for the examples: an index with one block at slot 7, which holds one
  transaction.
\<close>

definition sample_env :: model_env where
  "sample_env =
     \<lparr>get_block_info = (\<lambda>slot.
        if slot = JInt 7
        then Inr (Some (JNull, JNull,
               JObj [(''signatures'', JList [JStr ''sig1'']), (''blockhash'', JStr ''5Q''),
                     (''previousBlockhash'', JStr ''5Q''), (''blockTime'', JInt 1000)]))
        else Inr None),
      get_eth_trx_sig_by_signature = (\<lambda>s.
        if s = JStr ''sig1'' then Inr (JObj [(''idx'', JInt 0), (''eth'', JStr ''0xab'')])
        else Inr JNull),
      get_slot_by_hash = (\<lambda>h. if h = ''0xff'' then Inr (JInt 7) else Inr JNull),
      get_slot_by_number = (\<lambda>n. if n = JInt 7 then Inr (JInt 7) else Inr JNull),
      get_last_block_height = Inr (JInt 7),
      eth_getTransactionReceipt = (\<lambda>h. Inr (JObj [(''gasUsed'', JStr ''0x10'')])),
      eth_getTransactionByHash = (\<lambda>h. Inr (JObj [(''hash'', h)])),
      b58decode_hex = (\<lambda>v. Inr ''0123''),
      str_of = type_name\<rparr>"

chapter \<open>Properties\<close>

section \<open>Synthetic block hashes\<close>

lemma hex_char_cases:
  assumes "d < 16"
  shows "hex_digit_value (hex_char d) = Some d"
    and "hex_char d \<noteq> CHR ''_''" and "\<not> int_space (hex_char d)"
    and "hex_char d \<noteq> CHR ''-''" and "hex_char d \<noteq> CHR ''+''"
    and "hex_char d = CHR ''0'' \<longleftrightarrow> d = 0"
proof -
  let ?n = "if d < 10 then 48 + d else 87 + d"
  have n: "of_char (hex_char d) = ?n" using assms by (simp add: hex_char_def)
  show "hex_digit_value (hex_char d) = Some d"
    using assms by (simp add: hex_digit_value_def n Let_def)
  have ne: "\<And>c. of_char c \<noteq> ?n \<Longrightarrow> hex_char d \<noteq> c" using n by metis
  show "hex_char d \<noteq> CHR ''_''" using assms by (intro ne) simp
  show "\<not> int_space (hex_char d)" using assms by (simp add: int_space_def n)
  show "hex_char d \<noteq> CHR ''-''" using assms by (intro ne) simp
  show "hex_char d \<noteq> CHR ''+''" using assms by (intro ne) simp
  show "hex_char d = CHR ''0'' \<longleftrightarrow> d = 0"
  proof
    assume "hex_char d = CHR ''0''"
    then have "of_char (hex_char d) = (48::nat)" by simp
    then show "d = 0" unfolding n by (simp split: if_splits)
  next
    assume "d = 0" then show "hex_char d = CHR ''0''" by (simp add: hex_char_def char_of_eq_iff)
  qed
qed

lemma hex_digits_shape:
  "\<exists>d rest. hex_digits n = hex_char d # rest \<and> d < 16 \<and> (0 < n \<longrightarrow> 0 < d)"
proof (induction n rule: hex_digits.induct)
  case (1 n)
  show ?case
  proof (cases "n < 16")
    case True
    then show ?thesis by (auto simp: hex_digits.simps[of n])
  next
    case False
    from 1[OF False] obtain d rest where "hex_digits (n div 16) = hex_char d # rest" "d < 16" "0 < n div 16 \<longrightarrow> 0 < d"
      by auto
    with False show ?thesis by (auto simp: hex_digits.simps[of n])
  qed
qed

lemma hex_digits_last: "last (hex_digits n) = hex_char (n mod 16)"
  by (simp add: hex_digits.simps[of n])

lemma hex_digits_length: "0 < k \<Longrightarrow> length (hex_digits n) \<le> k \<longleftrightarrow> n < 16 ^ k"
proof (induction n arbitrary: k rule: hex_digits.induct)
  case (1 n)
  show ?case
  proof (cases "n < 16")
    case True
    have "(16::nat) ^ 1 \<le> 16 ^ k" using 1(2) by (intro power_increasing) auto
    with True 1(2) show ?thesis by (simp add: hex_digits.simps[of n])
  next
    case False
    obtain d rest where s: "hex_digits (n div 16) = hex_char d # rest"
      using hex_digits_shape by blast
    show ?thesis
    proof (cases "k = 1")
      case True
      with False s show ?thesis by (simp add: hex_digits.simps[of n])
    next
      case k: False
      with 1(2) obtain j where j: "k = Suc j" "0 < j" by (cases k) auto
      have "length (hex_digits (n div 16)) \<le> j \<longleftrightarrow> n div 16 < 16 ^ j"
        using 1(1)[OF False j(2)] .
      moreover have "n div 16 < 16 ^ j \<longleftrightarrow> n < 16 ^ k"
        unfolding j by (simp add: div_less_iff_less_mult mult.commute)
      ultimately show ?thesis using False j by (simp add: hex_digits.simps[of n])
    qed
  qed
qed

lemma digits_value_hex_digits:
  "digits_value acc (hex_digits n @ ys) = digits_value (acc * 16 ^ length (hex_digits n) + n) ys"
proof (induction n arbitrary: acc ys rule: hex_digits.induct)
  case (1 n)
  show ?case
  proof (cases "n < 16")
    case True
    then show ?thesis
      by (simp add: hex_digits.simps[of n] hex_char_cases mult.commute)
  next
    case False
    have m: "n mod 16 < 16" by simp
    have "digits_value acc (hex_digits n @ ys)
        = digits_value acc (hex_digits (n div 16) @ (hex_char (n mod 16) # ys))"
      using False by (simp add: hex_digits.simps[of n])
    also have "\<dots> = digits_value (acc * 16 ^ length (hex_digits (n div 16)) + n div 16) (hex_char (n mod 16) # ys)"
      using 1[OF False] .
    also have "\<dots> = digits_value (16 * (acc * 16 ^ length (hex_digits (n div 16)) + n div 16) + n mod 16) ys"
      using hex_char_cases[OF m] by simp
    also have "16 * (acc * 16 ^ length (hex_digits (n div 16)) + n div 16) + n mod 16
        = acc * 16 ^ length (hex_digits n) + n"
      using False by (simp add: hex_digits.simps[of n] algebra_simps)
    finally show ?thesis .
  qed
qed

lemma literal_value_hex_digits: "literal_value (hex_digits n) = Some n"
proof -
  obtain d rest where s: "hex_digits n = hex_char d # rest" "d < 16"
    using hex_digits_shape by blast
  have "literal_value (hex_digits n) = digits_value 0 (hex_digits n @ [])"
    using s hex_char_cases[OF s(2)] by (simp add: literal_value_def)
  then show ?thesis by (simp only: digits_value_hex_digits) simp
qed

lemma int16_hex_digits:
  assumes "0 < n"
  shows "int16 (hex_digits n) = Inr (int n)"
proof -
  obtain d rest where s: "hex_digits n = hex_char d # rest" "d < 16" "0 < d"
    using hex_digits_shape assms by blast
  have l: "\<not> int_space (last (hex_digits n))"
    by (simp add: hex_digits_last hex_char_cases)
  have ne: "hex_digits n \<noteq> []" using s by simp
  have "dropWhile int_space (hex_digits n) = hex_digits n"
    using s hex_char_cases[OF s(2)] by simp
  moreover have "dropWhile int_space (rev (hex_digits n)) = rev (hex_digits n)"
    using l ne by (cases "rev (hex_digits n)") (auto simp: last_rev[symmetric] simp del: last_rev)
  ultimately have s1: "rev (dropWhile int_space (rev (dropWhile int_space (hex_digits n)))) = hex_digits n"
    by simp
  have z: "hex_char d \<noteq> CHR ''0''" using hex_char_cases(6)[OF s(2)] s(3) by simp
  show ?thesis
    unfolding int16_def s1 Let_def
    using s hex_char_cases[OF s(2)] z literal_value_hex_digits[of n] by simp
qed

lemma lstrip_zero_hex_digits:
  "lstrip (hex_digits n) CHR ''0'' = (if n = 0 then [] else hex_digits n)"
proof (cases "n = 0")
  case True
  then show ?thesis by (simp add: lstrip_def hex_digits.simps[of 0] hex_char_cases)
next
  case False
  then obtain d rest where s: "hex_digits n = hex_char d # rest" "d < 16" "0 < d"
    using hex_digits_shape[of n] by auto
  then show ?thesis using False hex_char_cases(6)[OF s(2)] by (simp add: lstrip_def)
qed

lemma dropWhile_replicate_same:
  "dropWhile (\<lambda>x. x = c) (replicate k c @ ys) = dropWhile (\<lambda>x. x = c) ys"
  by (induction k) auto

lemma fake_block_hash_body:
  assumes "0 \<le> s"
  shows "generate_fake_block_hash s =
           ''0x'' @ replicate (62 - (length (hex_digits (nat s)) mod 2 + length (hex_digits (nat s)))) CHR ''f''
           @ ''00'' @ replicate (length (hex_digits (nat s)) mod 2) CHR ''0'' @ hex_digits (nat s)"
proof -
  let ?L = "length (hex_digits (nat s))"
  have "(?L div 2 + ?L mod 2) * 2 - ?L = ?L mod 2" by presburger
  then show ?thesis
    using assms by (simp add: generate_fake_block_hash_def hex_def rjust_def Let_def)
qed

lemma get_fake_block_slot_generated:
  assumes "0 \<le> s"
  shows "get_fake_block_slot (generate_fake_block_hash s) =
           (if s < 16 ^ 10 then Inr (Some s) else Inr None)"
proof -
  let ?hs = "hex_digits (nat s)"
  let ?L = "length ?hs"
  let ?body = "''00'' @ replicate (?L mod 2) CHR ''0'' @ ?hs"
  have strip_f: "lstrip (drop 2 (generate_fake_block_hash s)) CHR ''f'' = ?body"
    unfolding fake_block_hash_body[OF assms] lstrip_def
    by (simp add: dropWhile_replicate_same)
  have "length ?body = 2 + ?L mod 2 + ?L" by simp
  moreover have "\<And>l::nat. (12 < 2 + l mod 2 + l) = (\<not> l \<le> 10)" by presburger
  ultimately have len: "length ?body > 12 \<longleftrightarrow> \<not> ?L \<le> 10" by (simp only:)
  have L10: "?L \<le> 10 \<longleftrightarrow> nat s < 16 ^ 10" by (rule hex_digits_length) simp
  have "nat s < nat (16 ^ 10) \<longleftrightarrow> s < 16 ^ 10" using assms by (subst nat_less_eq_zless) auto
  then have s10: "nat s < 16 ^ 10 \<longleftrightarrow> s < 16 ^ 10" by simp
  have strip_0: "lstrip ?body CHR ''0'' = (if s = 0 then [] else ?hs)"
    using lstrip_zero_hex_digits[of "nat s"] assms
    by (simp add: lstrip_def dropWhile_replicate_same)
  show ?thesis
  proof (cases "s < 16 ^ 10")
    case False
    with len L10 s10 have "length ?body > 12" by blast
    with False show ?thesis
      unfolding get_fake_block_slot_def strip_f Let_def by simp
  next
    case True
    with len L10 s10 have le: "\<not> length ?body > 12" by blast
    have t: "take 2 ?body = ''00''" by simp
    show ?thesis
    proof (cases "s = 0")
      case True
      then show ?thesis
        unfolding get_fake_block_slot_def strip_f Let_def strip_0 using le t by simp
    next
      case False
      then have "0 < nat s" using assms by simp
      from int16_hex_digits[OF this] have "int16 ?hs = Inr s" using assms by simp
      moreover have "?hs \<noteq> []" using hex_digits_shape[of "nat s"] by auto
      ultimately show ?thesis
        unfolding get_fake_block_slot_def strip_f Let_def strip_0 using le t False \<open>s < 16 ^ 10\<close>
        by (simp add: bind_def)
    qed
  qed
qed


text \<open>
  C1, as amended. The generated hash of a slot \<open>s\<close> with \<open>0 \<le> s < 2 ^ 40\<close> decodes to
  \<open>s\<close>: the decoder accepts at most 12 characters after the run of \<^verbatim>\<open>f\<close>, two of which
  are the sentinel \<^verbatim>\<open>00\<close>, so ten hexadecimal digits remain for the slot. Every string
  that does not match the synthetic pattern decodes to \<^verbatim>\<open>None\<close>.
\<close>

theorem fake_block_hash_roundtrip:
  "(0 \<le> s \<and> s < 2 ^ 40 \<longrightarrow> get_fake_block_slot (generate_fake_block_hash s) = Inr (Some s))
   \<and> (\<not> synthetic_pattern h \<longrightarrow> get_fake_block_slot h = Inr None)"
proof (intro conjI impI)
  assume a: "0 \<le> s \<and> s < 2 ^ 40"
  have "(16::int) ^ 10 = 2 ^ 40" by simp
  with a have "s < 16 ^ 10" by (simp only:)
  with a show "get_fake_block_slot (generate_fake_block_hash s) = Inr (Some s)"
    using get_fake_block_slot_generated[of s] by (simp only: if_True)
next
  assume "\<not> synthetic_pattern h"
  then show "get_fake_block_slot h = Inr None"
    unfolding synthetic_pattern_def get_fake_block_slot_def lstrip_def Let_def
    by (simp only: de_Morgan_conj not_le if_True split: if_splits) blast
qed

theorem fake_block_hash_roundtrip_witness:
  "(0::int) \<le> 4660 \<and> (4660::int) < 2 ^ 40
   \<and> get_fake_block_slot (generate_fake_block_hash 4660) = Inr (Some 4660)
   \<and> \<not> synthetic_pattern
         ''0x0000000000000000000000000000000000000000000000000000000000000000''
   \<and> get_fake_block_slot
         ''0x0000000000000000000000000000000000000000000000000000000000000000'' = Inr None"
  using fake_block_hash_roundtrip[of 4660
    "''0x0000000000000000000000000000000000000000000000000000000000000000''"]
  by (simp add: synthetic_pattern_def)

text \<open>
  The claim as stated promises the round trip up to \<open>2 ^ 48\<close>; the hash generated for
  the slot \<open>2 ^ 40\<close> has 14 characters after the run of \<^verbatim>\<open>f\<close> and is not recognised.
\<close>

theorem fake_block_hash_roundtrip_counterexample:
  "(0::int) \<le> 2 ^ 40 \<and> (2::int) ^ 40 < 2 ^ 48
   \<and> get_fake_block_slot (generate_fake_block_hash (2 ^ 40)) = Inr None"
  using get_fake_block_slot_generated[of "2 ^ 40"] by simp


section \<open>Synthetic block times\<close>

lemma bit_length_0: "bit_length 0 = 0" by (simp add: bit_length.simps)

lemma bit_length_upper: "n < 2 ^ bit_length n"
proof (induction n rule: bit_length.induct)
  case (1 n)
  show ?case
  proof (cases "n = 0")
    case True then show ?thesis by (simp add: bit_length_0)
  next
    case False
    then have "n div 2 < 2 ^ bit_length (n div 2)" using 1 by simp
    then have "n < 2 * 2 ^ bit_length (n div 2)" by linarith
    then show ?thesis using False by (simp add: bit_length.simps[of n])
  qed
qed

lemma bit_length_lower: "0 < n \<Longrightarrow> 2 ^ (bit_length n - 1) \<le> n"
proof (induction n rule: bit_length.induct)
  case (1 n)
  then have n: "n \<noteq> 0" by simp
  then have bl: "bit_length n = Suc (bit_length (n div 2))" by (simp add: bit_length.simps[of n])
  show ?case
  proof (cases "n div 2 = 0")
    case True then show ?thesis using n by (simp add: bl bit_length_0)
  next
    case False
    then have ih: "2 ^ (bit_length (n div 2) - 1) \<le> n div 2" using 1(1)[OF n] by simp
    have "bit_length (n div 2) \<noteq> 0" using False by (simp add: bit_length.simps[of "n div 2"])
    then obtain j where j: "bit_length (n div 2) = Suc j" by (cases "bit_length (n div 2)") auto
    from ih have "(2::nat) ^ j \<le> n div 2" by (simp add: j)
    then have "(2::nat) * 2 ^ j \<le> n" by linarith
    then show ?thesis by (simp add: bl j)
  qed
qed

lemma bit_length_eq:
  assumes "2 ^ l \<le> n" "n < 2 ^ Suc l"
  shows "bit_length n = Suc l"
proof -
  have pos: "0 < n" using assms(1) by (metis gr0I not_less zero_less_numeral zero_less_power)
  have "(2::nat) ^ l < 2 ^ bit_length n" using assms(1) bit_length_upper[of n] by linarith
  then have a: "l < bit_length n" by simp
  have "(2::nat) ^ (bit_length n - 1) < 2 ^ Suc l" using assms(2) bit_length_lower[OF pos] by linarith
  then have "bit_length n - 1 < Suc l" by (rule power_less_imp_less_exp[rotated]) simp
  with a show ?thesis by linarith
qed

lemma bit_length_mono: "a \<le> b \<Longrightarrow> bit_length a \<le> bit_length b"
proof (rule ccontr)
  assume ab: "a \<le> b" and "\<not> bit_length a \<le> bit_length b"
  then have lt: "bit_length b < bit_length a" by simp
  then have "a \<noteq> 0" by (cases "a = 0") (simp_all add: bit_length_0)
  then have "2 ^ (bit_length a - 1) \<le> a" using bit_length_lower[of a] by simp
  moreover have "b < 2 ^ bit_length b" by (rule bit_length_upper)
  ultimately have "(2::nat) ^ (bit_length a - 1) < 2 ^ bit_length b" using ab by linarith
  then have "bit_length a - 1 < bit_length b" by simp
  with lt show False by linarith
qed

lemma bit_length_bound: "n < 2 ^ l \<Longrightarrow> bit_length n \<le> l"
proof (cases "n = 0")
  case True then show ?thesis by (simp add: bit_length_0)
next
  case False
  assume "n < 2 ^ l"
  moreover have "(2::nat) ^ (bit_length n - 1) \<le> n" using bit_length_lower[of n] False by simp
  ultimately have "(2::nat) ^ (bit_length n - 1) < 2 ^ l" by (rule le_less_trans[rotated])
  then have "bit_length n - 1 < l" by simp
  then show ?thesis by linarith
qed

lemma round_half_even_ge: "n div 2 ^ sh \<le> round_half_even n sh"
  by (simp add: round_half_even_def Let_def)
lemma round_half_even_le: "round_half_even n sh \<le> n div 2 ^ sh + 1"
  by (simp add: round_half_even_def Let_def)
lemma round_half_even_exact: "round_half_even n 0 = n"
  by (simp add: round_half_even_def Let_def)

lemma round_half_even_mono:
  assumes "a \<le> b"
  shows "round_half_even a sh \<le> round_half_even b sh"
proof (cases "a div 2 ^ sh < b div 2 ^ sh")
  case True
  have "round_half_even a sh \<le> a div 2 ^ sh + 1" by (rule round_half_even_le)
  also have "\<dots> \<le> b div 2 ^ sh" using True by simp
  also have "\<dots> \<le> round_half_even b sh" by (rule round_half_even_ge)
  finally show ?thesis .
next
  case False
  moreover have "a div 2 ^ sh \<le> b div 2 ^ sh" using assms by (rule div_le_mono)
  ultimately have q: "a div 2 ^ sh = b div 2 ^ sh" by simp
  have "a div 2 ^ sh * 2 ^ sh + a mod 2 ^ sh \<le> b div 2 ^ sh * 2 ^ sh + b mod 2 ^ sh"
    using assms by (simp only: div_mult_mod_eq)
  then have "a mod 2 ^ sh \<le> b mod 2 ^ sh" by (simp only: q add_le_cancel_left)
  then show ?thesis by (simp add: round_half_even_def Let_def q)
qed

lemma round_53_small: "n < 2 ^ 53 \<Longrightarrow> round_53 n = n"
  using bit_length_bound[of n 53] by (simp add: round_53_def round_half_even_exact)

lemma round_53_0: "round_53 0 = 0" by (simp add: round_53_small)

lemma round_53_at:
  "2 ^ l \<le> n \<Longrightarrow> n < 2 ^ Suc l \<Longrightarrow> round_53 n = round_half_even n (Suc l - 53) * 2 ^ (Suc l - 53)"
  by (simp only: round_53_def bit_length_eq Let_def)

lemma round_53_upper: "round_53 n \<le> 2 ^ bit_length n"
proof (cases "bit_length n \<le> 53")
  case True
  then have "round_53 n = n" by (simp add: round_53_def round_half_even_exact)
  then show ?thesis using bit_length_upper[of n] by simp
next
  case False
  define sh where "sh = bit_length n - 53"
  have bl: "bit_length n = 53 + sh" using False by (simp add: sh_def)
  have "n < 2 ^ 53 * 2 ^ sh" using bit_length_upper[of n] by (simp only: bl power_add)
  then have "n div 2 ^ sh < 2 ^ 53" by (simp add: less_mult_imp_div_less)
  then have "round_half_even n sh \<le> 2 ^ 53" using round_half_even_le[of n sh] by linarith
  then have "round_half_even n sh * 2 ^ sh \<le> 2 ^ 53 * 2 ^ sh" by (rule mult_le_mono1)
  moreover have "round_53 n = round_half_even n sh * 2 ^ sh" by (simp add: round_53_def sh_def Let_def)
  moreover have "(2::nat) ^ bit_length n = 2 ^ 53 * 2 ^ sh" by (simp only: bl power_add)
  ultimately show ?thesis by simp
qed

lemma round_53_lower:
  assumes "0 < n"
  shows "2 ^ (bit_length n - 1) \<le> round_53 n"
proof (cases "bit_length n \<le> 53")
  case True
  then have "round_53 n = n" by (simp add: round_53_def round_half_even_exact)
  then show ?thesis using bit_length_lower[OF assms] by simp
next
  case False
  define sh where "sh = bit_length n - 53"
  have bl: "bit_length n - 1 = 52 + sh" using False by (simp add: sh_def)
  have "2 ^ 52 * 2 ^ sh \<le> n" using bit_length_lower[OF assms] by (simp only: bl power_add)
  then have "(2 ^ 52 * 2 ^ sh) div 2 ^ sh \<le> n div 2 ^ sh" by (rule div_le_mono)
  then have "2 ^ 52 \<le> n div 2 ^ sh" by simp
  then have "2 ^ 52 \<le> round_half_even n sh" using round_half_even_ge[of n sh] by linarith
  then have "2 ^ 52 * 2 ^ sh \<le> round_half_even n sh * 2 ^ sh" by (rule mult_le_mono1)
  moreover have "round_53 n = round_half_even n sh * 2 ^ sh" by (simp add: round_53_def sh_def Let_def)
  moreover have "(2::nat) ^ (bit_length n - 1) = 2 ^ 52 * 2 ^ sh" by (simp only: bl power_add)
  ultimately show ?thesis by simp
qed

lemma round_53_mono:
  assumes "a \<le> b"
  shows "round_53 a \<le> round_53 b"
proof (cases "a = 0")
  case True then show ?thesis by (simp add: round_53_0)
next
  case False
  then have b: "0 < b" using assms by simp
  have "bit_length a \<le> bit_length b" using assms by (rule bit_length_mono)
  then consider "bit_length a = bit_length b" | "bit_length a < bit_length b" by linarith
  then show ?thesis
  proof cases
    case 1
    show ?thesis
      by (simp only: round_53_def Let_def 1 mult_le_mono1 round_half_even_mono[OF assms])
  next
    case 2
    have "round_53 a \<le> 2 ^ bit_length a" by (rule round_53_upper)
    also have "\<dots> \<le> 2 ^ (bit_length b - 1)" using 2 by (intro power_increasing) auto
    also have "\<dots> \<le> round_53 b" using b by (rule round_53_lower)
    finally show ?thesis .
  qed
qed

lemma ceil_block_sec_0: "ceil_block_sec 0 = Inr 0"
  by (simp add: ceil_block_sec_def round_53_0)

lemma ceil_block_sec_returns:
  assumes "\<bar>k\<bar> < 2 ^ 1023"
  shows "\<exists>d. ceil_block_sec k = Inr d"
proof -
  have "nat \<bar>k\<bar> < 2 ^ 1023" using assms by (simp add: nat_less_iff)
  then have "bit_length (nat \<bar>k\<bar>) \<le> 1023" by (rule bit_length_bound)
  then have "(2::nat) ^ bit_length (nat \<bar>k\<bar>) \<le> 2 ^ 1023" by (intro power_increasing) auto
  then have "round_53 (nat \<bar>k\<bar>) \<le> 2 ^ 1023" using round_53_upper[of "nat \<bar>k\<bar>"] by linarith
  also have "(2::nat) ^ 1023 < 2 ^ 1024" by (intro power_strict_increasing) auto
  finally have "\<not> 2 ^ 1024 \<le> round_53 (nat \<bar>k\<bar>)" by simp
  then show ?thesis by (simp only: ceil_block_sec_def Let_def if_False) blast
qed

lemma ceil_block_sec_mono:
  assumes "0 \<le> a" "a \<le> b" "ceil_block_sec b = Inr db"
  shows "\<exists>da. ceil_block_sec a = Inr da \<and> 0 \<le> da \<and> da \<le> db"
proof -
  let ?ma = "round_53 (nat \<bar>a\<bar>)" and ?mb = "round_53 (nat \<bar>b\<bar>)"
  let ?pa = "round_53 (?ma * one_block_sec)" and ?pb = "round_53 (?mb * one_block_sec)"
  have "nat \<bar>a\<bar> \<le> nat \<bar>b\<bar>" using assms(1,2) by simp
  then have m: "?ma \<le> ?mb" by (rule round_53_mono)
  have p: "?pa \<le> ?pb" by (rule round_53_mono[OF mult_le_mono1[OF m]])
  have nb: "\<not> 2 ^ 1024 \<le> ?mb" using assms(3) by (auto simp: ceil_block_sec_def Let_def split: if_splits)
  then have na: "\<not> 2 ^ 1024 \<le> ?ma" using m by linarith
  have db: "db = - (- int ?pb div 2 ^ 54)" using assms nb by (auto simp: ceil_block_sec_def Let_def)
  have da: "ceil_block_sec a = Inr (- (- int ?pa div 2 ^ 54))" using assms(1) na by (auto simp: ceil_block_sec_def Let_def)
  have "- int ?pb div 2 ^ 54 \<le> - int ?pa div 2 ^ 54" using p by (intro zdiv_mono1) auto
  moreover have "- int ?pa div 2 ^ 54 \<le> 0 div 2 ^ 54" by (intro zdiv_mono1) auto
  ultimately show ?thesis using da db by simp
qed

lemma ceil_block_sec_1: "ceil_block_sec 1 = Inr 1"
  by (simp add: ceil_block_sec_def round_53_small one_block_sec_def)

lemma ceil_block_sec_5: "ceil_block_sec 5 = Inr 2"
proof -
  have "round_53 36028797018963970 = 36028797018963968"
    by (simp add: round_53_at[of 55] round_half_even_def)
  then show ?thesis by (simp add: ceil_block_sec_def round_53_small one_block_sec_def)
qed

text \<open>
  From \<open>2 ^ 53\<close> on the conversion of the integer rounds, and the result leaves the ceiling
  of the exact product.
\<close>

lemma ceil_block_sec_rounds:
  "ceil_block_sec (2 ^ 53 + 1) = Inr 3602879701896397
   \<and> \<lceil>rat_of_int (2 ^ 53 + 1) * (4 / 10)\<rceil> = 3602879701896398"
proof -
  have a: "round_53 9007199254740993 = 9007199254740992"
    by (simp add: round_53_at[of 53] round_half_even_def)
  have b: "round_53 (9007199254740992 * 7205759403792794) = 9007199254740992 * 7205759403792794"
    by (simp add: round_53_at[of 105] round_half_even_def)
  have c: "ceil_block_sec (2 ^ 53 + 1) = Inr 3602879701896397"
    using a b by (simp add: ceil_block_sec_def one_block_sec_def)
  have "\<lceil>rat_of_int (2 ^ 53 + 1) * (4 / 10)\<rceil> = 3602879701896398"
    by (rule ceiling_unique) simp_all
  with c show ?thesis by simp
qed

lemma ceil_block_sec_overflow:
  "ceil_block_sec (2 ^ 1024) = Inl (Exception ''OverflowError'' ''int too large to convert to float'')"
proof -
  have "bit_length (2 ^ 1024) = Suc 1024" by (rule bit_length_eq) simp_all
  then have "round_53 (2 ^ 1024) = 2 ^ 1024"
    by (simp add: round_53_def round_half_even_def Let_def flip: power_add)
  then show ?thesis by (simp add: ceil_block_sec_def)
qed

lemma pick_max_in: "pick_max b rs \<in> set (b # rs)"
  by (induction rs arbitrary: b) auto
lemma pick_max_ge: "x \<in> set (b # rs) \<Longrightarrow> block_slot x \<le> block_slot (pick_max b rs)"
proof (induction rs arbitrary: b x)
  case Nil then show ?case by simp
next
  case (Cons r rs)
  have b: "block_slot b \<le> block_slot (pick_max (if block_slot b < block_slot r then r else b) rs)"
    using Cons.IH[of "if block_slot b < block_slot r then r else b" "if block_slot b < block_slot r then r else b"]
    by (auto split: if_splits)
  have r: "block_slot r \<le> block_slot (pick_max (if block_slot b < block_slot r then r else b) rs)"
    using Cons.IH[of "if block_slot b < block_slot r then r else b" "if block_slot b < block_slot r then r else b"]
    by (auto split: if_splits)
  from Cons.prems consider "x = b" | "x = r" | "x \<in> set rs" by auto
  then show ?case
  proof cases
    case 1 with b show ?thesis by simp
  next
    case 2 with r show ?thesis by simp
  next
    case 3 then show ?thesis using Cons.IH[of x "if block_slot b < block_slot r then r else b"] by simp
  qed
qed
lemma pick_min_in: "pick_min b rs \<in> set (b # rs)"
  by (induction rs arbitrary: b) auto
lemma pick_min_le: "x \<in> set (b # rs) \<Longrightarrow> block_slot (pick_min b rs) \<le> block_slot x"
proof (induction rs arbitrary: b x)
  case Nil then show ?case by simp
next
  case (Cons r rs)
  let ?c = "if block_slot r < block_slot b then r else b"
  have b: "block_slot (pick_min ?c rs) \<le> block_slot b"
    using Cons.IH[of ?c ?c] by (auto split: if_splits)
  have r: "block_slot (pick_min ?c rs) \<le> block_slot r"
    using Cons.IH[of ?c ?c] by (auto split: if_splits)
  from Cons.prems consider "x = b" | "x = r" | "x \<in> set rs" by auto
  then show ?case
  proof cases
    case 1 with b show ?thesis by simp
  next
    case 2 with r show ?thesis by simp
  next
    case 3 then show ?thesis using Cons.IH[of x ?c] by simp
  qed
qed

lemma nearest_before_Some:
  assumes "lo \<in> set tbl" "block_slot lo \<le> s"
  shows "\<exists>r. nearest_before tbl s = Some r \<and> r \<in> set tbl \<and> block_slot r \<le> s
             \<and> (\<forall>x\<in>set tbl. block_slot x \<le> s \<longrightarrow> block_slot x \<le> block_slot r)"
proof -
  let ?c = "filter (\<lambda>r. block_slot r \<le> s) tbl"
  from assms have "lo \<in> set ?c" by simp
  then obtain b rs where c: "?c = b # rs" by (cases ?c) auto
  have "pick_max b rs \<in> set ?c" using pick_max_in[of b rs] by (simp only: c)
  then have in_c: "pick_max b rs \<in> set tbl \<and> block_slot (pick_max b rs) \<le> s" by simp
  have "\<forall>x\<in>set tbl. block_slot x \<le> s \<longrightarrow> block_slot x \<le> block_slot (pick_max b rs)"
  proof (intro ballI impI)
    fix x assume "x \<in> set tbl" "block_slot x \<le> s"
    then have "x \<in> set (b # rs)" using c[symmetric] by simp
    then show "block_slot x \<le> block_slot (pick_max b rs)" by (rule pick_max_ge)
  qed
  with in_c c show ?thesis by (simp add: nearest_before_def)
qed

lemma nearest_after_Some:
  assumes "up \<in> set tbl" "s \<le> block_slot up"
  shows "\<exists>r. nearest_after tbl s = Some r \<and> r \<in> set tbl \<and> s \<le> block_slot r
             \<and> (\<forall>x\<in>set tbl. s \<le> block_slot x \<longrightarrow> block_slot r \<le> block_slot x)"
proof -
  let ?c = "filter (\<lambda>r. block_slot r \<ge> s) tbl"
  from assms have "up \<in> set ?c" by simp
  then obtain b rs where c: "?c = b # rs" by (cases ?c) auto
  have "pick_min b rs \<in> set ?c" using pick_min_in[of b rs] by (simp only: c)
  then have in_c: "pick_min b rs \<in> set tbl \<and> s \<le> block_slot (pick_min b rs)" by simp
  have "\<forall>x\<in>set tbl. s \<le> block_slot x \<longrightarrow> block_slot (pick_min b rs) \<le> block_slot x"
  proof (intro ballI impI)
    fix x assume "x \<in> set tbl" "s \<le> block_slot x"
    then have "x \<in> set (b # rs)" using c[symmetric] by simp
    then show "block_slot (pick_min b rs) \<le> block_slot x" by (rule pick_min_le)
  qed
  with in_c c show ?thesis by (simp add: nearest_after_def)
qed

lemma distinct_slot_eq:
  "distinct (map block_slot tbl) \<Longrightarrow> x \<in> set tbl \<Longrightarrow> y \<in> set tbl \<Longrightarrow> block_slot x = block_slot y \<Longrightarrow> x = y"
  by (meson distinct_map inj_onD)

lemma nearest_before_unique:
  assumes "distinct (map block_slot tbl)" "nearest_lower tbl s lo"
  shows "nearest_before tbl s = Some lo"
proof -
  from assms(2) have lo: "lo \<in> set tbl" "block_slot lo \<le> s"
    and mx: "\<forall>x\<in>set tbl. block_slot x \<le> s \<longrightarrow> block_slot x \<le> block_slot lo"
    by (auto simp: nearest_lower_def)
  from nearest_before_Some[OF lo] obtain r where r: "nearest_before tbl s = Some r" "r \<in> set tbl"
    "block_slot r \<le> s" "\<forall>x\<in>set tbl. block_slot x \<le> s \<longrightarrow> block_slot x \<le> block_slot r" by blast
  have "block_slot r = block_slot lo" using r lo mx by (meson order_antisym)
  then have "r = lo" using distinct_slot_eq[OF assms(1) r(2) lo(1)] by simp
  with r show ?thesis by simp
qed

lemma nearest_after_unique:
  assumes "distinct (map block_slot tbl)" "nearest_upper tbl s up"
  shows "nearest_after tbl s = Some up"
proof -
  from assms(2) have up: "up \<in> set tbl" "s \<le> block_slot up"
    and mn: "\<forall>x\<in>set tbl. s \<le> block_slot x \<longrightarrow> block_slot up \<le> block_slot x"
    by (auto simp: nearest_upper_def)
  from nearest_after_Some[OF up] obtain r where r: "nearest_after tbl s = Some r" "r \<in> set tbl"
    "s \<le> block_slot r" "\<forall>x\<in>set tbl. s \<le> block_slot x \<longrightarrow> block_slot r \<le> block_slot x" by blast
  have "block_slot r = block_slot up" using r up mn by (meson order_antisym)
  then have "r = up" using distinct_slot_eq[OF assms(1) r(2) up(1)] by simp
  with r show ?thesis by simp
qed

lemma fake_block_time_value:
  assumes "distinct (map block_slot tbl)" "nearest_lower tbl s lo" "nearest_upper tbl s up"
    and "block_time lo = Some t_lower" "block_time up = Some t_upper"
    and "ceil_block_sec (s - block_slot lo) = Inr dl" "ceil_block_sec (block_slot up - s) = Inr du"
  shows "generate_fake_block_time ord genesis tbl s =
          Inr (case ord of LowerFirst \<Rightarrow> t_lower + dl | UpperFirst \<Rightarrow> t_upper - du)"
  using assms(4-7)
  by (cases ord)
     (simp_all add: generate_fake_block_time_def nearest_blocks_query_def fetchone_def bind_def
        nearest_before_unique[OF assms(1,2)] nearest_after_unique[OF assms(1,3)])


text \<open>
  C2, as amended. Let the table hold one row per slot, and let the requested slot have a
  nearest lower and a nearest upper stored neighbour with stored times, less than
  \<open>2 ^ 1023\<close> slots apart (as any two 64-bit slots are). Then \<^verbatim>\<open>math.ceil(k * 0.4)\<close>, in
  double precision, returns for the distance \<open>k\<close> of the requested slot from either
  neighbour and for the distance of the neighbours, and the synthesis returns a time: the
  lower time plus that value for the distance from the lower neighbour when the database
  returns the lower row first (so at least the lower time), the upper time minus that
  value for the distance from the upper neighbour when it returns the upper row first (so
  at most the upper time). The time equals the stored time when the requested slot is the
  lower or the upper neighbour, and it lies between the two stored times whenever these are
  at least the value for the distance of the neighbours apart.
\<close>

theorem fake_block_time_between:
  assumes "distinct (map block_slot tbl)" "nearest_lower tbl s lo" "nearest_upper tbl s up"
    and "block_time lo = Some t_lower" "block_time up = Some t_upper"
    and "block_slot up - block_slot lo < 2 ^ 1023"
  shows "\<exists>t dl du d. generate_fake_block_time ord genesis tbl s = Inr t
           \<and> ceil_block_sec (s - block_slot lo) = Inr dl
           \<and> ceil_block_sec (block_slot up - s) = Inr du
           \<and> ceil_block_sec (block_slot up - block_slot lo) = Inr d
           \<and> (ord = LowerFirst \<longrightarrow> t = t_lower + dl \<and> t_lower \<le> t)
           \<and> (ord = UpperFirst \<longrightarrow> t = t_upper - du \<and> t \<le> t_upper)
           \<and> (s = block_slot lo \<longrightarrow> t = t_lower)
           \<and> (s = block_slot up \<longrightarrow> t = t_upper)
           \<and> (d \<le> t_upper - t_lower \<longrightarrow> t_lower \<le> t \<and> t \<le> t_upper)"
proof -
  from assms(2) have lo: "lo \<in> set tbl" "block_slot lo \<le> s"
    and mx: "\<forall>x\<in>set tbl. block_slot x \<le> s \<longrightarrow> block_slot x \<le> block_slot lo"
    by (auto simp: nearest_lower_def)
  from assms(3) have up: "up \<in> set tbl" "s \<le> block_slot up"
    and mn: "\<forall>x\<in>set tbl. s \<le> block_slot x \<longrightarrow> block_slot up \<le> block_slot x"
    by (auto simp: nearest_upper_def)
  have stored: "s = block_slot lo \<or> s = block_slot up \<Longrightarrow> lo = up"
  proof -
    assume "s = block_slot lo \<or> s = block_slot up"
    then have "block_slot lo = block_slot up" using lo up mx mn by (metis order_antisym order_refl)
    then show "lo = up" using distinct_slot_eq[OF assms(1) lo(1) up(1)] by simp
  qed
  have "\<bar>block_slot up - block_slot lo\<bar> < 2 ^ 1023" using lo(2) up(2) assms(6) by simp
  then obtain d where d: "ceil_block_sec (block_slot up - block_slot lo) = Inr d"
    using ceil_block_sec_returns by blast
  from ceil_block_sec_mono[OF _ _ d, of "s - block_slot lo"] lo(2) up(2)
  obtain dl where dl: "ceil_block_sec (s - block_slot lo) = Inr dl" "0 \<le> dl" "dl \<le> d" by auto
  from ceil_block_sec_mono[OF _ _ d, of "block_slot up - s"] lo(2) up(2)
  obtain du where du: "ceil_block_sec (block_slot up - s) = Inr du" "0 \<le> du" "du \<le> d" by auto
  have eq_lo: "s = block_slot lo \<or> s = block_slot up \<Longrightarrow> dl = 0 \<and> du = 0 \<and> t_lower = t_upper"
    using stored assms(4,5) dl(1) du(1) by (auto simp: ceil_block_sec_0)
  have t: "generate_fake_block_time ord genesis tbl s =
             Inr (case ord of LowerFirst \<Rightarrow> t_lower + dl | UpperFirst \<Rightarrow> t_upper - du)"
    by (rule fake_block_time_value[OF assms(1-5) dl(1) du(1)])
  show ?thesis
  proof (cases ord)
    case LowerFirst
    with t have "generate_fake_block_time ord genesis tbl s = Inr (t_lower + dl)" by simp
    then show ?thesis using LowerFirst d dl du eq_lo by auto
  next
    case UpperFirst
    with t have "generate_fake_block_time ord genesis tbl s = Inr (t_upper - du)" by simp
    then show ?thesis using UpperFirst d dl du eq_lo by auto
  qed
qed


theorem fake_block_time_between_witness:
  "generate_fake_block_time LowerFirst 0
     [\<lparr>block_slot = 10, block_hash = None, block_time = Some 1000, parent_block_slot = None,
       is_finalized = Some True, is_active = Some True\<rparr>,
      \<lparr>block_slot = 20, block_hash = None, block_time = Some 1010, parent_block_slot = None,
       is_finalized = Some True, is_active = Some True\<rparr>] 15 = Inr 1002
   \<and> generate_fake_block_time UpperFirst 0
     [\<lparr>block_slot = 10, block_hash = None, block_time = Some 1000, parent_block_slot = None,
       is_finalized = Some True, is_active = Some True\<rparr>,
      \<lparr>block_slot = 20, block_hash = None, block_time = Some 1010, parent_block_slot = None,
       is_finalized = Some True, is_active = Some True\<rparr>] 10 = Inr 1000"
proof -
  let ?lo = "\<lparr>block_slot = 10, block_hash = None, block_time = Some 1000, parent_block_slot = None,
       is_finalized = Some True, is_active = Some True\<rparr>"
  let ?up = "\<lparr>block_slot = 20, block_hash = None, block_time = Some 1010, parent_block_slot = None,
       is_finalized = Some True, is_active = Some True\<rparr>"
  have d: "distinct (map block_slot [?lo, ?up])" by simp
  have l15: "nearest_lower [?lo, ?up] 15 ?lo" by (simp add: nearest_lower_def)
  have u15: "nearest_upper [?lo, ?up] 15 ?up" by (simp add: nearest_upper_def)
  have l10: "nearest_lower [?lo, ?up] 10 ?lo" by (simp add: nearest_lower_def)
  have u10: "nearest_upper [?lo, ?up] 10 ?lo" by (simp add: nearest_upper_def)
  have tl: "block_time ?lo = Some 1000" and tu: "block_time ?up = Some 1010" by simp_all
  have b15: "block_slot ?up - block_slot ?lo < 2 ^ 1023" by simp
  have b10: "block_slot ?lo - block_slot ?lo < 2 ^ 1023" by simp
  from fake_block_time_between[OF d l15 u15 tl tu b15, of LowerFirst 0]
  have a: "generate_fake_block_time LowerFirst 0 [?lo, ?up] 15 = Inr 1002"
    by (auto simp: ceil_block_sec_5)
  from fake_block_time_between[OF d l10 u10 tl tl b10, of UpperFirst 0]
  have b: "generate_fake_block_time UpperFirst 0 [?lo, ?up] 10 = Inr 1000"
    by auto
  from a b show ?thesis by simp
qed

text \<open>
  The claim as stated bounds the time by the neighbours' times for all stored neighbours.
  With blocks stored at the slots 10 and 12, both with the time 1000, the time synthesized
  for slot 11 is 1001 when the lower row comes first, and 999 when the upper row does.
\<close>

theorem fake_block_time_between_counterexample:
  "generate_fake_block_time LowerFirst 0
     [\<lparr>block_slot = 10, block_hash = None, block_time = Some 1000, parent_block_slot = None,
       is_finalized = Some True, is_active = Some True\<rparr>,
      \<lparr>block_slot = 12, block_hash = None, block_time = Some 1000, parent_block_slot = None,
       is_finalized = Some True, is_active = Some True\<rparr>] 11 = Inr 1001
   \<and> generate_fake_block_time UpperFirst 0
     [\<lparr>block_slot = 10, block_hash = None, block_time = Some 1000, parent_block_slot = None,
       is_finalized = Some True, is_active = Some True\<rparr>,
      \<lparr>block_slot = 12, block_hash = None, block_time = Some 1000, parent_block_slot = None,
       is_finalized = Some True, is_active = Some True\<rparr>] 11 = Inr 999
   \<and> \<not> (1001 \<le> (1000::int)) \<and> \<not> ((1000::int) \<le> 999)"
  by (simp add: generate_fake_block_time_def fetchone_def nearest_blocks_query_def
        nearest_before_def nearest_after_def ceil_block_sec_1 bind_def)


section \<open>The hashes of slot 0 and of negative slots\<close>

text \<open>
  C5, as amended. Slot 0 gets the hash of sixty \<^verbatim>\<open>f\<close> and four \<^verbatim>\<open>0\<close>, which decodes
  to slot 0; every negative slot gets the all-zero hash; the block synthesized for slot 0
  has the all-zero hash, the synthetic hash of slot \<open>-1\<close>, as its parent hash, and it is
  returned whenever the synthesis of its time returns.
\<close>

theorem fake_block_hash_edges:
  "generate_fake_block_hash 0 = ''0x'' @ replicate 60 CHR ''f'' @ ''0000''
   \<and> get_fake_block_slot (generate_fake_block_hash 0) = Inr (Some 0)
   \<and> (s < 0 \<longrightarrow> generate_fake_block_hash s = ''0x'' @ replicate 64 CHR ''0'')
   \<and> generate_fake_block_hash (- 1) = ''0x'' @ replicate 64 CHR ''0''
   \<and> (\<forall>t. generate_fake_block_time ord genesis tbl 0 = Inr t \<longrightarrow>
         (\<exists>b. block_from_value ord genesis tbl (Some 0) None = Inr b
              \<and> info_block_slot b = 0
              \<and> info_block_hash b = Some (generate_fake_block_hash 0)
              \<and> info_block_time b = Some t
              \<and> info_parent_block_hash b = Some (generate_fake_block_hash (- 1))
              \<and> info_parent_block_hash b = Some (''0x'' @ replicate 64 CHR ''0'')))
   \<and> (\<forall>e. generate_fake_block_time ord genesis tbl 0 = Inl e \<longrightarrow>
         block_from_value ord genesis tbl (Some 0) None = Inl e)"
proof (intro conjI allI impI)
  show "generate_fake_block_hash 0 = ''0x'' @ replicate 60 CHR ''f'' @ ''0000''"
    using fake_block_hash_body[of 0]
    by (simp add: hex_digits.simps[of 0] hex_char_cases)
  show "get_fake_block_slot (generate_fake_block_hash 0) = Inr (Some 0)"
    using get_fake_block_slot_generated[of 0] by simp
  show "generate_fake_block_hash (- 1) = ''0x'' @ replicate 64 CHR ''0''"
    by (simp add: generate_fake_block_hash_def)
next
  assume "s < 0"
  then show "generate_fake_block_hash s = ''0x'' @ replicate 64 CHR ''0''"
    by (simp add: generate_fake_block_hash_def)
next
  fix t assume "generate_fake_block_time ord genesis tbl 0 = Inr t"
  then show "\<exists>b. block_from_value ord genesis tbl (Some 0) None = Inr b
              \<and> info_block_slot b = 0
              \<and> info_block_hash b = Some (generate_fake_block_hash 0)
              \<and> info_block_time b = Some t
              \<and> info_parent_block_hash b = Some (generate_fake_block_hash (- 1))
              \<and> info_parent_block_hash b = Some (''0x'' @ replicate 64 CHR ''0'')"
    by (simp add: block_from_value_def bind_def generate_fake_block_hash_def[of "- 1"])
next
  fix e assume "generate_fake_block_time ord genesis tbl 0 = Inl e"
  then show "block_from_value ord genesis tbl (Some 0) None = Inl e"
    by (simp add: block_from_value_def bind_def)
qed

theorem fake_block_hash_edges_witness:
  "(- 5 :: int) < 0
   \<and> generate_fake_block_hash (- 5) = ''0x'' @ replicate 64 CHR ''0''
   \<and> generate_fake_block_time LowerFirst 1600000000 [] 0 = Inr 1600000000
   \<and> (\<exists>b. block_from_value LowerFirst 1600000000 [] (Some 0) None = Inr b
          \<and> info_block_time b = Some 1600000000
          \<and> info_parent_block_hash b = Some (''0x'' @ replicate 64 CHR ''0''))"
proof -
  have t: "generate_fake_block_time LowerFirst 1600000000 [] 0 = Inr 1600000000"
    by (simp add: generate_fake_block_time_def nearest_blocks_query_def nearest_before_def
          nearest_after_def fetchone_def ceil_block_sec_0 bind_def)
  from fake_block_hash_edges[of "- 5" LowerFirst 1600000000 "[]"] t
  show ?thesis by auto
qed

text \<open>
  The claim as stated gives slot 0 the all-zero hash; the generated hash starts with sixty
  \<^verbatim>\<open>f\<close>.
\<close>

theorem fake_block_hash_edges_counterexample:
  "generate_fake_block_hash 0 = ''0x'' @ replicate 60 CHR ''f'' @ ''0000''
   \<and> generate_fake_block_hash 0 \<noteq> ''0x'' @ replicate 64 CHR ''0''"
proof -
  have "generate_fake_block_hash 0 = ''0x'' @ replicate 60 CHR ''f'' @ ''0000''"
    using fake_block_hash_body[of 0]
    by (simp add: hex_digits.simps[of 0] hex_char_cases)
  then show ?thesis by (simp add: numeral_eq_Suc)
qed


section \<open>Branch switches and the flags\<close>

text \<open>
  C3, as amended. With a non-empty list of slots both operations return. After
  \<^verbatim>\<open>activate_block_list\<close> the table has the same slots, and among the rows above the
  base exactly those whose slot is in the list are active. After
  \<^verbatim>\<open>finalize_block_list\<close> every row of a listed slot is kept, finalized and active, and
  no inactive row remains strictly between the base and the last slot of the list.
\<close>

theorem branch_switch:
  assumes "slots \<noteq> []"
  shows "(\<exists>tbl'. activate_block_list base slots tbl = Inr tbl'
            \<and> map block_slot tbl' = map block_slot tbl
            \<and> (\<forall>r\<in>set tbl'. base < block_slot r \<longrightarrow> (is_active r = Some True \<longleftrightarrow> block_slot r \<in> set slots)))
       \<and> (\<exists>tbl'. finalize_block_list base slots tbl = Inr tbl'
            \<and> (\<forall>r\<in>set tbl. block_slot r \<in> set slots \<longrightarrow> r\<lparr>is_finalized := Some True, is_active := Some True\<rparr> \<in> set tbl')
            \<and> (\<forall>r\<in>set tbl'. block_slot r \<in> set slots \<longrightarrow> is_finalized r = Some True \<and> is_active r = Some True)
            \<and> (\<forall>r\<in>set tbl'. \<not> (base < block_slot r \<and> block_slot r < last slots \<and> is_active r = Some False)))"
proof (intro conjI)
  let ?t1 = "map (\<lambda>r. if block_slot r > base then r\<lparr>is_active := Some False\<rparr> else r) tbl"
  let ?t2 = "map (\<lambda>r. if block_slot r \<in> set slots then r\<lparr>is_active := Some True\<rparr> else r) ?t1"
  have a: "activate_block_list base slots tbl = Inr ?t2"
    using assms by (simp add: activate_block_list_def Let_def)
  have b: "map block_slot ?t2 = map block_slot tbl" by (simp add: comp_def)
  have c: "\<forall>r\<in>set ?t2. base < block_slot r \<longrightarrow> (is_active r = Some True \<longleftrightarrow> block_slot r \<in> set slots)"
    by (auto split: if_splits)
  from a b c show "\<exists>tbl'. activate_block_list base slots tbl = Inr tbl'
            \<and> map block_slot tbl' = map block_slot tbl
            \<and> (\<forall>r\<in>set tbl'. base < block_slot r \<longrightarrow> (is_active r = Some True \<longleftrightarrow> block_slot r \<in> set slots))"
    by blast
next
  let ?t1 = "map (\<lambda>r. if block_slot r \<in> set slots then r\<lparr>is_finalized := Some True, is_active := Some True\<rparr> else r) tbl"
  let ?t2 = "filter (\<lambda>r. \<not> (block_slot r > base \<and> block_slot r < last slots \<and> is_active r = Some False)) ?t1"
  have a: "finalize_block_list base slots tbl = Inr ?t2"
    using assms by (simp add: finalize_block_list_def Let_def)
  have b: "\<forall>r\<in>set tbl. block_slot r \<in> set slots \<longrightarrow> r\<lparr>is_finalized := Some True, is_active := Some True\<rparr> \<in> set ?t2"
    by (auto simp: image_iff intro!: bexI)
  have c: "\<forall>r\<in>set ?t2. block_slot r \<in> set slots \<longrightarrow> is_finalized r = Some True \<and> is_active r = Some True"
    by (auto split: if_splits)
  have d: "\<forall>r\<in>set ?t2. \<not> (base < block_slot r \<and> block_slot r < last slots \<and> is_active r = Some False)"
    by simp
  from a b c d show "\<exists>tbl'. finalize_block_list base slots tbl = Inr tbl'
            \<and> (\<forall>r\<in>set tbl. block_slot r \<in> set slots \<longrightarrow> r\<lparr>is_finalized := Some True, is_active := Some True\<rparr> \<in> set tbl')
            \<and> (\<forall>r\<in>set tbl'. block_slot r \<in> set slots \<longrightarrow> is_finalized r = Some True \<and> is_active r = Some True)
            \<and> (\<forall>r\<in>set tbl'. \<not> (base < block_slot r \<and> block_slot r < last slots \<and> is_active r = Some False))"
    by blast
qed


theorem branch_switch_witness:
  "[10, 12] \<noteq> ([]::int list)
   \<and> activate_block_list 9 [10, 12]
       [\<lparr>block_slot = 10, block_hash = None, block_time = None, parent_block_slot = None,
         is_finalized = Some False, is_active = Some False\<rparr>,
        \<lparr>block_slot = 11, block_hash = None, block_time = None, parent_block_slot = None,
         is_finalized = Some False, is_active = Some True\<rparr>]
     = Inr [\<lparr>block_slot = 10, block_hash = None, block_time = None, parent_block_slot = None,
         is_finalized = Some False, is_active = Some True\<rparr>,
        \<lparr>block_slot = 11, block_hash = None, block_time = None, parent_block_slot = None,
         is_finalized = Some False, is_active = Some False\<rparr>]
   \<and> finalize_block_list 9 [10, 12]
       [\<lparr>block_slot = 10, block_hash = None, block_time = None, parent_block_slot = None,
         is_finalized = Some False, is_active = Some False\<rparr>,
        \<lparr>block_slot = 11, block_hash = None, block_time = None, parent_block_slot = None,
         is_finalized = Some False, is_active = Some False\<rparr>]
     = Inr [\<lparr>block_slot = 10, block_hash = None, block_time = None, parent_block_slot = None,
         is_finalized = Some True, is_active = Some True\<rparr>]"
  using branch_switch[of "[10, 12]" 9
    "[\<lparr>block_slot = 10, block_hash = None, block_time = None, parent_block_slot = None,
         is_finalized = Some False, is_active = Some False\<rparr>,
        \<lparr>block_slot = 11, block_hash = None, block_time = None, parent_block_slot = None,
         is_finalized = Some False, is_active = Some True\<rparr>]"]
  by (simp add: activate_block_list_def finalize_block_list_def)

text \<open>
  The claim as stated bounds the deleted range by the greatest slot of the list; the
  statement deletes below the last slot of the list. With the list 10, 5 an inactive row
  at slot 7 stays in the table.
\<close>

theorem branch_switch_counterexample:
  "finalize_block_list 0 [10, 5]
     [\<lparr>block_slot = 7, block_hash = None, block_time = None, parent_block_slot = None,
       is_finalized = Some False, is_active = Some False\<rparr>]
   = Inr [\<lparr>block_slot = 7, block_hash = None, block_time = None, parent_block_slot = None,
       is_finalized = Some False, is_active = Some False\<rparr>]
   \<and> (0::int) < 7 \<and> (7::int) < Max (set [10, 5])"
  by (simp add: finalize_block_list_def)

lemma set_block_list_inv:
  assumes "inserts_given_rows ins" "finalized_implies_active tbl" "set_block_list ins blocks tbl = Inr tbl'"
  shows "finalized_implies_active tbl'"
proof -
  from assms(1,3) have sub: "set tbl' \<subseteq> set tbl \<union> set (map block_values blocks)"
    unfolding inserts_given_rows_def set_block_list_def by blast
  show ?thesis
    unfolding finalized_implies_active_def
  proof (intro ballI impI)
    fix r assume r: "r \<in> set tbl'" "is_finalized r = Some True"
    from r(1) sub consider "r \<in> set tbl" | "r \<in> set (map block_values blocks)" by blast
    then show "is_active r = Some True"
    proof cases
      case 1 with assms(2) r(2) show ?thesis by (simp add: finalized_implies_active_def)
    next
      case 2 then obtain b where "r = block_values b" by auto
      with r(2) show ?thesis by (simp add: block_values_def)
    qed
  qed
qed

lemma finalize_block_list_inv:
  assumes "finalized_implies_active tbl" "finalize_block_list base slots tbl = Inr tbl'"
  shows "finalized_implies_active tbl'"
proof -
  from assms(2) have "slots \<noteq> []" by (auto simp: finalize_block_list_def split: if_splits)
  with assms(2) have t: "tbl' = filter (\<lambda>r. \<not> (block_slot r > base \<and> block_slot r < last slots \<and> is_active r = Some False))
        (map (\<lambda>r. if block_slot r \<in> set slots then r\<lparr>is_finalized := Some True, is_active := Some True\<rparr> else r) tbl)"
    by (simp add: finalize_block_list_def Let_def)
  show ?thesis using assms(1) unfolding t finalized_implies_active_def by (auto split: if_splits)
qed

lemma activate_block_list_inv:
  assumes "finalized_implies_active tbl" "activate_covers_finalized base slots tbl"
    "activate_block_list base slots tbl = Inr tbl'"
  shows "finalized_implies_active tbl'"
proof -
  from assms(3) have "slots \<noteq> []" by (auto simp: activate_block_list_def Let_def split: if_splits)
  with assms(3) have t: "tbl' = map (\<lambda>r. if block_slot r \<in> set slots then r\<lparr>is_active := Some True\<rparr> else r)
        (map (\<lambda>r. if block_slot r > base then r\<lparr>is_active := Some False\<rparr> else r) tbl)"
    by (simp add: activate_block_list_def Let_def)
  show ?thesis using assms(1,2) unfolding t finalized_implies_active_def activate_covers_finalized_def
    by (auto split: if_splits)
qed


text \<open>
  C4, as amended. \<^verbatim>\<open>set_block_list\<close> and \<^verbatim>\<open>finalize_block_list\<close> keep the implication
  for any arguments, and \<^verbatim>\<open>activate_block_list\<close> keeps it when every finalized row above
  the base is in the activated list: after any sequence of such operations that succeeds,
  every finalized row is active.
\<close>

theorem finalized_implies_active_preserved:
  assumes "inserts_given_rows ins" "finalized_implies_active tbl" "covering_ops ins ops tbl"
    "apply_block_ops ins ops tbl = Inr tbl'"
  shows "finalized_implies_active tbl'"
  using assms(2-4)
proof (induction ops arbitrary: tbl)
  case Nil
  then show ?case by simp
next
  case (Cons x xs)
  from Cons.prems(3) obtain t1 where t1: "apply_block_op ins x tbl = Inr t1" "apply_block_ops ins xs t1 = Inr tbl'"
    by (auto simp: bind_def split: sum.splits)
  from Cons.prems(2) t1(1) have cov: "covering_ops ins xs t1" by simp
  have "finalized_implies_active t1"
  proof (cases x)
    case (SetBlockList blocks)
    with t1(1) show ?thesis using set_block_list_inv[OF assms(1) Cons.prems(1)] by simp
  next
    case (FinalizeBlockList base slots)
    with t1(1) show ?thesis using finalize_block_list_inv[OF Cons.prems(1)] by simp
  next
    case (ActivateBlockList base slots)
    with Cons.prems(2) have "activate_covers_finalized base slots tbl" by simp
    with ActivateBlockList t1(1) show ?thesis using activate_block_list_inv[OF Cons.prems(1)] by simp
  qed
  from Cons.IH[OF this cov t1(2)] show ?case .
qed


lemma append_rows_inserts: "inserts_given_rows append_rows"
  by (auto simp: inserts_given_rows_def append_rows_def)

theorem finalized_implies_active_preserved_witness:
  "inserts_given_rows append_rows \<and> finalized_implies_active []
   \<and> covering_ops append_rows
        [SetBlockList [\<lparr>info_block_slot = 5, info_block_hash = None, info_block_time = None,
                     info_parent_block_slot = None, info_is_finalized = Some True,
                     info_parent_block_hash = None\<rparr>],
         ActivateBlockList 0 [5, 7], FinalizeBlockList 0 [5]] []
   \<and> (\<exists>tbl'. apply_block_ops append_rows
        [SetBlockList [\<lparr>info_block_slot = 5, info_block_hash = None, info_block_time = None,
                     info_parent_block_slot = None, info_is_finalized = Some True,
                     info_parent_block_hash = None\<rparr>],
         ActivateBlockList 0 [5, 7], FinalizeBlockList 0 [5]] [] = Inr tbl' \<and> finalized_implies_active tbl')"
proof -
  let ?ops = "[SetBlockList [\<lparr>info_block_slot = 5, info_block_hash = None, info_block_time = None,
                     info_parent_block_slot = None, info_is_finalized = Some True,
                     info_parent_block_hash = None\<rparr>],
         ActivateBlockList 0 [5, 7], FinalizeBlockList 0 [5]]"
  let ?res = "[\<lparr>block_slot = 5, block_hash = None, block_time = None, parent_block_slot = None,
           is_finalized = Some True, is_active = Some True\<rparr>]"
  have i: "finalized_implies_active []" by (simp add: finalized_implies_active_def)
  have c: "covering_ops append_rows ?ops []"
    by (simp add: set_block_list_def append_rows_def block_values_def activate_block_list_def
          activate_covers_finalized_def finalize_block_list_def)
  have r: "apply_block_ops append_rows ?ops [] = Inr ?res"
    by (simp add: bind_def set_block_list_def append_rows_def block_values_def activate_block_list_def
          finalize_block_list_def)
  from finalized_implies_active_preserved[OF append_rows_inserts i c r] i c r append_rows_inserts
  show ?thesis by blast
qed


text \<open>
  The claim as stated holds the implication for any arguments. Activating the branch
  with slot 7 above the base 0 deactivates the finalized row at slot 5.
\<close>

theorem finalized_implies_active_counterexample:
  "apply_block_ops append_rows
     [SetBlockList [\<lparr>info_block_slot = 5, info_block_hash = None, info_block_time = None,
                     info_parent_block_slot = None, info_is_finalized = Some True,
                     info_parent_block_hash = None\<rparr>],
      ActivateBlockList 0 [7]] []
   = Inr [\<lparr>block_slot = 5, block_hash = None, block_time = None, parent_block_slot = None,
           is_finalized = Some True, is_active = Some False\<rparr>]"
  by (simp add: bind_def set_block_list_def append_rows_def block_values_def activate_block_list_def)


section \<open>The mempool transaction cache\<close>

lemma popleft_expired_queue:
  "snd (popleft_expired bound queue dict) = dropWhile (\<lambda>i. last_time i < bound) queue"
  by (induction queue arbitrary: dict) auto

lemma popleft_expired_dict:
  "fst (popleft_expired bound queue dict) k =
     (if k \<in> neon_sig ` set (takeWhile (\<lambda>i. last_time i < bound) queue) then None else dict k)"
  by (induction queue arbitrary: dict) auto

lemma clear_queue:
  "neon_tx_queue (MPTxDict_clear clock self) =
     dropWhile (\<lambda>i. last_time i < max (get_time clock - life_time) 0) (neon_tx_queue self)"
  using popleft_expired_queue[of "max (get_time clock - life_time) 0" "neon_tx_queue self" "neon_tx_dict self"]
  by (cases "neon_tx_queue self") (auto simp: MPTxDict_clear_def Let_def split: prod.splits)

lemma clear_dict:
  "neon_tx_dict (MPTxDict_clear clock self) k =
     (if k \<in> neon_sig ` set (takeWhile (\<lambda>i. last_time i < max (get_time clock - life_time) 0)
                               (neon_tx_queue self))
      then None else neon_tx_dict self k)"
  using popleft_expired_dict[of "max (get_time clock - life_time) 0" "neon_tx_queue self" "neon_tx_dict self" k]
  by (cases "neon_tx_queue self") (auto simp: MPTxDict_clear_def Let_def split: prod.splits)

lemma add_queue: "neon_tx_queue (MPTxDict_add clock sig tx exc self) =
    neon_tx_queue self @ [\<lparr>last_time = get_time clock, neon_sig = sig, neon_tx = tx, error = exc\<rparr>]"
  by (simp add: MPTxDict_add_def Let_def)

lemma add_dict: "neon_tx_dict (MPTxDict_add clock sig tx exc self) =
    (neon_tx_dict self)(sig \<mapsto> \<lparr>last_time = get_time clock, neon_sig = sig, neon_tx = tx, error = exc\<rparr>)"
  by (simp add: MPTxDict_add_def Let_def)

lemma dict_in_queue_step: "dict_in_queue self \<Longrightarrow> dict_in_queue (apply_cache_op x self)"
proof (cases x)
  case (Add clock sig tx exc)
  assume "dict_in_queue self"
  then show ?thesis
    unfolding Add dict_in_queue_def by (auto simp: add_queue add_dict)
next
  case (Clear clock)
  assume a: "dict_in_queue self"
  let ?P = "\<lambda>i. last_time i < max (get_time clock - life_time) 0"
  show ?thesis
    unfolding Clear dict_in_queue_def apply_cache_op.simps
  proof (intro allI impI)
    fix k i assume s: "neon_tx_dict (MPTxDict_clear clock self) k = Some i"
    then have nk: "k \<notin> neon_sig ` set (takeWhile ?P (neon_tx_queue self))"
      and d: "neon_tx_dict self k = Some i"
      by (auto simp: clear_dict split: if_splits)
    from a d have i: "i \<in> set (neon_tx_queue self)" "neon_sig i = k"
      by (auto simp: dict_in_queue_def)
    have "set (neon_tx_queue self) = set (takeWhile ?P (neon_tx_queue self)) \<union> set (dropWhile ?P (neon_tx_queue self))"
      by (metis set_append takeWhile_dropWhile_id)
    with i nk have "i \<in> set (dropWhile ?P (neon_tx_queue self))" by auto
    with i show "i \<in> set (neon_tx_queue (MPTxDict_clear clock self)) \<and> neon_sig i = k"
      by (simp add: clear_queue)
  qed
qed

lemma dict_in_queue_run: "dict_in_queue self \<Longrightarrow> dict_in_queue (run_cache_ops ops self)"
  by (induction ops arbitrary: self) (auto intro: dict_in_queue_step)

lemma dict_is_queue_step:
  assumes "dict_is_queue self"
    and "case x of Add clock sig tx exc \<Rightarrow> sig \<notin> neon_sig ` set (neon_tx_queue self) | Clear clock \<Rightarrow> True"
  shows "dict_is_queue (apply_cache_op x self)"
proof (cases x)
  case (Add clock sig tx exc)
  with assms(2) have f: "sig \<notin> neon_sig ` set (neon_tx_queue self)" by simp
  have a: "dict_in_queue (apply_cache_op x self)" using assms(1) dict_in_queue_step by (auto simp: dict_is_queue_def)
  from assms(1) f have "\<forall>i\<in>set (neon_tx_queue (MPTxDict_add clock sig tx exc self)).
      neon_tx_dict (MPTxDict_add clock sig tx exc self) (neon_sig i) = Some i"
    by (auto simp: dict_is_queue_def add_queue add_dict)
  moreover from assms(1) f have "distinct (map neon_sig (neon_tx_queue (MPTxDict_add clock sig tx exc self)))"
    by (auto simp: dict_is_queue_def add_queue)
  ultimately show ?thesis using a unfolding Add by (simp add: dict_is_queue_def)
next
  case (Clear clock)
  let ?P = "\<lambda>i. last_time i < max (get_time clock - life_time) 0"
  let ?q = "neon_tx_queue self"
  have a: "dict_in_queue (apply_cache_op x self)" using assms(1) dict_in_queue_step by (auto simp: dict_is_queue_def)
  from assms(1) have d: "distinct (map neon_sig ?q)" and m: "\<forall>i\<in>set ?q. neon_tx_dict self (neon_sig i) = Some i"
    by (auto simp: dict_is_queue_def)
  have "distinct (map neon_sig (takeWhile ?P ?q @ dropWhile ?P ?q))" using d by simp
  then have dis: "neon_sig ` set (takeWhile ?P ?q) \<inter> neon_sig ` set (dropWhile ?P ?q) = {}"
    and dd: "distinct (map neon_sig (dropWhile ?P ?q))"
    by (simp_all only: map_append distinct_append set_map)
  have "\<forall>i\<in>set (dropWhile ?P ?q). neon_tx_dict (MPTxDict_clear clock self) (neon_sig i) = Some i"
  proof
    fix i assume i: "i \<in> set (dropWhile ?P ?q)"
    then have "neon_sig i \<notin> neon_sig ` set (takeWhile ?P ?q)" using dis by blast
    moreover from i have "i \<in> set ?q" by (rule set_dropWhileD)
    ultimately show "neon_tx_dict (MPTxDict_clear clock self) (neon_sig i) = Some i"
      using m by (simp add: clear_dict)
  qed
  with dd a show ?thesis unfolding Clear by (simp add: dict_is_queue_def clear_queue)
qed

lemma dict_is_queue_run:
  "dict_is_queue self \<Longrightarrow> fresh_adds ops self \<Longrightarrow> dict_is_queue (run_cache_ops ops self)"
proof (induction ops arbitrary: self)
  case Nil
  then show ?case by simp
next
  case (Cons x xs)
  from Cons.prems have "dict_is_queue (apply_cache_op x self)" by (auto intro: dict_is_queue_step)
  with Cons show ?case by simp
qed

lemma dict_in_queue_ran: "dict_in_queue self \<Longrightarrow> ran (neon_tx_dict self) \<subseteq> set (neon_tx_queue self)"
  by (auto simp: dict_in_queue_def ran_def)

lemma dict_is_queue_ran: "dict_is_queue self \<Longrightarrow> ran (neon_tx_dict self) = set (neon_tx_queue self)"
  unfolding dict_is_queue_def dict_in_queue_def ran_def by blast

text \<open>
  C7, as amended. After every sequence of \<^verbatim>\<open>add\<close> and \<^verbatim>\<open>clear\<close> calls on a new cache,
  every item reachable through the dictionary is in the queue. When no call adds a
  signature that an item of the queue still carries, the dictionary and the queue hold
  exactly the same items. And every item that a sweep removes from the queue is
  unreachable afterwards: its signature is no key of the dictionary.
\<close>

theorem cache_dict_follows_queue:
  "ran (neon_tx_dict (run_cache_ops ops MPTxDict_init))
     \<subseteq> set (neon_tx_queue (run_cache_ops ops MPTxDict_init))
   \<and> (fresh_adds ops MPTxDict_init \<longrightarrow>
        ran (neon_tx_dict (run_cache_ops ops MPTxDict_init))
          = set (neon_tx_queue (run_cache_ops ops MPTxDict_init)))
   \<and> (\<forall>i\<in>set (neon_tx_queue self) - set (neon_tx_queue (MPTxDict_clear clock self)).
        neon_tx_dict (MPTxDict_clear clock self) (neon_sig i) = None)"
proof (intro conjI impI ballI)
  have "dict_in_queue (MPTxDict_init :: 'a MPTxDict)"
    by (simp add: dict_in_queue_def MPTxDict_init_def)
  then show "ran (neon_tx_dict (run_cache_ops ops (MPTxDict_init :: 'a MPTxDict)))
     \<subseteq> set (neon_tx_queue (run_cache_ops ops MPTxDict_init))"
    by (intro dict_in_queue_ran dict_in_queue_run)
next
  assume f: "fresh_adds ops (MPTxDict_init :: 'a MPTxDict)"
  have "dict_is_queue (MPTxDict_init :: 'a MPTxDict)"
    by (simp add: dict_is_queue_def dict_in_queue_def MPTxDict_init_def)
  from dict_is_queue_run[OF this f]
  show "ran (neon_tx_dict (run_cache_ops ops (MPTxDict_init :: 'a MPTxDict)))
          = set (neon_tx_queue (run_cache_ops ops MPTxDict_init))"
    by (rule dict_is_queue_ran)
next
  fix i :: "'b Item"
  let ?P = "\<lambda>i. last_time i < max (get_time clock - life_time) 0"
  assume "i \<in> set (neon_tx_queue self) - set (neon_tx_queue (MPTxDict_clear clock self))"
  then have i: "i \<in> set (neon_tx_queue self)" "i \<notin> set (dropWhile ?P (neon_tx_queue self))"
    by (simp_all add: clear_queue)
  have "set (neon_tx_queue self) = set (takeWhile ?P (neon_tx_queue self)) \<union> set (dropWhile ?P (neon_tx_queue self))"
    by (metis set_append takeWhile_dropWhile_id)
  with i have "i \<in> set (takeWhile ?P (neon_tx_queue self))" by auto
  then show "neon_tx_dict (MPTxDict_clear clock self) (neon_sig i) = None"
    by (simp add: clear_dict)
qed

theorem cache_dict_follows_queue_witness:
  "fresh_adds [Add 0 ''a'' (1::nat) None, Add 1 ''b'' 2 None, Clear 16] MPTxDict_init
   \<and> neon_tx_queue (run_cache_ops [Add 0 ''a'' (1::nat) None, Add 1 ''b'' 2 None, Clear 16] MPTxDict_init)
       = [\<lparr>last_time = 1, neon_sig = ''b'', neon_tx = 2, error = None\<rparr>]
   \<and> ran (neon_tx_dict (run_cache_ops [Add 0 ''a'' (1::nat) None, Add 1 ''b'' 2 None, Clear 16] MPTxDict_init))
       = set (neon_tx_queue (run_cache_ops [Add 0 ''a'' (1::nat) None, Add 1 ''b'' 2 None, Clear 16] MPTxDict_init))
   \<and> \<lparr>last_time = 0, neon_sig = ''a'', neon_tx = (1::nat), error = None\<rparr>
       \<in> set (neon_tx_queue (run_cache_ops [Add 0 ''a'' 1 None, Add 1 ''b'' 2 None] MPTxDict_init))
         - set (neon_tx_queue (MPTxDict_clear 16 (run_cache_ops [Add 0 ''a'' 1 None, Add 1 ''b'' 2 None] MPTxDict_init)))
   \<and> neon_tx_dict (MPTxDict_clear 16 (run_cache_ops [Add 0 ''a'' (1::nat) None, Add 1 ''b'' 2 None] MPTxDict_init)) ''a''
       = None"
proof -
  let ?ops = "[Add 0 ''a'' (1::nat) None, Add 1 ''b'' 2 None, Clear 16]"
  let ?st2 = "run_cache_ops [Add 0 ''a'' (1::nat) None, Add 1 ''b'' 2 None] MPTxDict_init"
  let ?ia = "\<lparr>last_time = 0, neon_sig = ''a'', neon_tx = (1::nat), error = None\<rparr>"
  have f: "fresh_adds ?ops MPTxDict_init"
    by (simp add: MPTxDict_init_def add_queue get_time_def)
  have q2: "neon_tx_queue ?st2 = [?ia, \<lparr>last_time = 1, neon_sig = ''b'', neon_tx = 2, error = None\<rparr>]"
    by (simp add: MPTxDict_init_def add_queue get_time_def)
  have q3: "neon_tx_queue (MPTxDict_clear 16 ?st2) = [\<lparr>last_time = 1, neon_sig = ''b'', neon_tx = 2, error = None\<rparr>]"
    by (simp only: clear_queue q2) (simp add: get_time_def life_time_def)
  have q: "neon_tx_queue (run_cache_ops ?ops MPTxDict_init) = [\<lparr>last_time = 1, neon_sig = ''b'', neon_tx = 2, error = None\<rparr>]"
    using q3 by simp
  have i: "?ia \<in> set (neon_tx_queue ?st2) - set (neon_tx_queue (MPTxDict_clear 16 ?st2))"
    by (simp only: q2 q3) simp
  note t = cache_dict_follows_queue[of ?ops ?st2 16]
  from t[THEN conjunct2, THEN conjunct1, rule_format, OF f]
  have r: "ran (neon_tx_dict (run_cache_ops ?ops MPTxDict_init)) = set (neon_tx_queue (run_cache_ops ?ops MPTxDict_init))" .
  from t[THEN conjunct2, THEN conjunct2, rule_format, OF i]
  have n: "neon_tx_dict (MPTxDict_clear 16 ?st2) ''a'' = None" by simp
  from f q r i n show ?thesis by (intro conjI)
qed

text \<open>
  The claim as stated includes repeated signatures. After two \<^verbatim>\<open>add\<close> calls with the same
  signature the queue holds both items and the dictionary only the second.
\<close>

theorem cache_dict_follows_queue_counterexample:
  "set (neon_tx_queue (run_cache_ops [Add 0 ''a'' (1::nat) None, Add 1 ''a'' 2 None] MPTxDict_init))
     = {\<lparr>last_time = 0, neon_sig = ''a'', neon_tx = 1, error = None\<rparr>,
        \<lparr>last_time = 1, neon_sig = ''a'', neon_tx = 2, error = None\<rparr>}
   \<and> ran (neon_tx_dict (run_cache_ops [Add 0 ''a'' (1::nat) None, Add 1 ''a'' 2 None] MPTxDict_init))
     = {\<lparr>last_time = 1, neon_sig = ''a'', neon_tx = 2, error = None\<rparr>}
   \<and> \<lparr>last_time = 0, neon_sig = ''a'', neon_tx = (1::nat), error = None\<rparr>
       \<noteq> \<lparr>last_time = 1, neon_sig = ''a'', neon_tx = 2, error = None\<rparr>"
  by (simp add: MPTxDict_init_def add_queue add_dict get_time_def)

lemma window_bound:
  assumes "0 \<le> t0" "clock < t0 + of_int life_time"
  shows "max (get_time clock - life_time) 0 \<le> get_time t0"
proof -
  have "\<lceil>clock\<rceil> \<le> \<lceil>t0 + of_int life_time\<rceil>" using assms(2) by (intro ceiling_mono) simp
  then have "get_time clock - life_time \<le> get_time t0" by (simp add: get_time_def)
  moreover have "0 \<le> get_time t0" using assms(1) by (simp add: get_time_def)
  ultimately show ?thesis by simp
qed

lemma expiry_bound:
  assumes "t0 + of_int life_time + 1 \<le> clock"
  shows "get_time t0 < max (get_time clock - life_time) 0"
proof -
  have "t0 + of_int (life_time + 1) \<le> clock" using assms by simp
  then have "\<lceil>t0 + of_int (life_time + 1)\<rceil> \<le> \<lceil>clock\<rceil>" by (rule ceiling_mono)
  then have "\<lceil>t0\<rceil> + (life_time + 1) \<le> \<lceil>clock\<rceil>" by (simp only: ceiling_add_of_int)
  then have "get_time t0 + life_time + 1 \<le> get_time clock" by (simp add: get_time_def)
  then show ?thesis by simp
qed

text \<open>Within the window: the entry of the signature stays.\<close>

lemma window_step:
  assumes "0 \<le> t0"
    and "neon_tx_dict self sig = Some item"
    and "\<forall>i\<in>set (neon_tx_queue self). neon_sig i = sig \<longrightarrow> get_time t0 \<le> last_time i"
    and "\<not> adds_sig sig x" "sweeps_before (t0 + of_int life_time) x"
  shows "neon_tx_dict (apply_cache_op x self) sig = Some item
       \<and> (\<forall>i\<in>set (neon_tx_queue (apply_cache_op x self)). neon_sig i = sig \<longrightarrow> get_time t0 \<le> last_time i)"
proof (cases x)
  case (Add clock sig' tx exc)
  with assms show ?thesis by (auto simp: add_dict add_queue)
next
  case (Clear clock)
  let ?b = "max (get_time clock - life_time) 0"
  from assms(5) Clear have "clock < t0 + of_int life_time" by simp
  from window_bound[OF assms(1) this] have b: "?b \<le> get_time t0" .
  have "sig \<notin> neon_sig ` set (takeWhile (\<lambda>i. last_time i < ?b) (neon_tx_queue self))"
  proof
    assume "sig \<in> neon_sig ` set (takeWhile (\<lambda>i. last_time i < ?b) (neon_tx_queue self))"
    then obtain i where i: "i \<in> set (takeWhile (\<lambda>i. last_time i < ?b) (neon_tx_queue self))" "neon_sig i = sig"
      by auto
    from i(1) have "last_time i < ?b" "i \<in> set (neon_tx_queue self)"
      by (auto dest: set_takeWhileD)
    with assms(3) i(2) b show False by force
  qed
  then have "neon_tx_dict (MPTxDict_clear clock self) sig = Some item"
    using assms(2) by (simp add: clear_dict)
  moreover have "\<forall>i\<in>set (neon_tx_queue (MPTxDict_clear clock self)). neon_sig i = sig \<longrightarrow> get_time t0 \<le> last_time i"
    using assms(3) by (auto simp: clear_queue dest: set_dropWhileD)
  ultimately show ?thesis unfolding Clear by simp
qed

lemma window_run:
  assumes "0 \<le> t0"
  shows "neon_tx_dict self sig = Some item
    \<Longrightarrow> \<forall>i\<in>set (neon_tx_queue self). neon_sig i = sig \<longrightarrow> get_time t0 \<le> last_time i
    \<Longrightarrow> \<forall>x\<in>set ops. \<not> adds_sig sig x
    \<Longrightarrow> \<forall>x\<in>set ops. sweeps_before (t0 + of_int life_time) x
    \<Longrightarrow> neon_tx_dict (run_cache_ops ops self) sig = Some item"
proof (induction ops arbitrary: self)
  case Nil
  then show ?case by simp
next
  case (Cons x xs)
  from window_step[OF assms Cons.prems(1,2), of x] Cons.prems(3,4)
  have "neon_tx_dict (apply_cache_op x self) sig = Some item"
    and "\<forall>i\<in>set (neon_tx_queue (apply_cache_op x self)). neon_sig i = sig \<longrightarrow> get_time t0 \<le> last_time i"
    by auto
  from Cons.IH[OF this] Cons.prems(3,4) show ?case by simp
qed

lemma old_then_other_step:
  assumes "old_then_other T sig self" "\<not> adds_sig sig x"
  shows "old_then_other T sig (apply_cache_op x self)"
proof -
  from assms(1) obtain pre post where s: "neon_tx_queue self = pre @ post"
    "\<forall>x\<in>set pre. last_time x \<le> T" "\<forall>x\<in>set post. neon_sig x \<noteq> sig"
    and d: "neon_tx_dict self sig \<noteq> None \<longrightarrow> sig \<in> neon_sig ` set (neon_tx_queue self)"
    unfolding old_then_other_def by blast
  show ?thesis
  proof (cases x)
    case (Add clock sig' tx exc)
    with assms(2) have ne: "sig' \<noteq> sig" by simp
    let ?new = "\<lparr>last_time = get_time clock, neon_sig = sig', neon_tx = tx, error = exc\<rparr>"
    have "neon_tx_queue (apply_cache_op x self) = pre @ (post @ [?new])"
      unfolding Add by (simp add: add_queue s(1))
    moreover have "\<forall>x\<in>set (post @ [?new]). neon_sig x \<noteq> sig" using s(3) ne by auto
    moreover have "neon_tx_dict (apply_cache_op x self) sig \<noteq> None
        \<longrightarrow> sig \<in> neon_sig ` set (neon_tx_queue (apply_cache_op x self))"
      unfolding Add using d ne by (auto simp: add_dict add_queue)
    ultimately show ?thesis unfolding old_then_other_def using s(2) by blast
  next
    case (Clear clock)
    let ?P = "\<lambda>i. last_time i < max (get_time clock - life_time) 0"
    have q: "neon_tx_queue (apply_cache_op x self) = dropWhile ?P (pre @ post)"
      unfolding Clear by (simp add: clear_queue s(1))
    have split: "\<exists>pre' post'. dropWhile ?P (pre @ post) = pre' @ post'
          \<and> (\<forall>x\<in>set pre'. last_time x \<le> T) \<and> (\<forall>x\<in>set post'. neon_sig x \<noteq> sig)"
    proof (cases "\<forall>x\<in>set pre. ?P x")
      case True
      then have "dropWhile ?P (pre @ post) = [] @ dropWhile ?P post" by simp
      moreover have "\<forall>x\<in>set (dropWhile ?P post). neon_sig x \<noteq> sig"
        using s(3) by (auto dest: set_dropWhileD)
      ultimately show ?thesis by (metis empty_iff list.set(1))
    next
      case False
      then obtain y where "y \<in> set pre" "\<not> ?P y" by blast
      then have "dropWhile ?P (pre @ post) = dropWhile ?P pre @ post"
        by (rule dropWhile_append1)
      moreover have "\<forall>x\<in>set (dropWhile ?P pre). last_time x \<le> T"
        using s(2) by (auto dest: set_dropWhileD)
      ultimately show ?thesis using s(3) by blast
    qed
    have "neon_tx_dict (MPTxDict_clear clock self) sig \<noteq> None
        \<longrightarrow> sig \<in> neon_sig ` set (neon_tx_queue (MPTxDict_clear clock self))"
    proof
      assume a: "neon_tx_dict (MPTxDict_clear clock self) sig \<noteq> None"
      then have nt: "sig \<notin> neon_sig ` set (takeWhile ?P (neon_tx_queue self))"
        and "neon_tx_dict self sig \<noteq> None"
        by (auto simp: clear_dict split: if_splits)
      with d have "sig \<in> neon_sig ` set (neon_tx_queue self)" by simp
      moreover have "set (neon_tx_queue self) = set (takeWhile ?P (neon_tx_queue self)) \<union> set (dropWhile ?P (neon_tx_queue self))"
        by (metis set_append takeWhile_dropWhile_id)
      ultimately have "sig \<in> neon_sig ` set (dropWhile ?P (neon_tx_queue self))" using nt by auto
      then show "sig \<in> neon_sig ` set (neon_tx_queue (MPTxDict_clear clock self))"
        by (simp add: clear_queue)
    qed
    with split q show ?thesis unfolding old_then_other_def Clear by simp
  qed
qed

lemma old_then_other_run:
  "old_then_other T sig self \<Longrightarrow> \<forall>x\<in>set ops. \<not> adds_sig sig x
    \<Longrightarrow> old_then_other T sig (run_cache_ops ops self)"
  by (induction ops arbitrary: self) (auto intro: old_then_other_step)

lemma old_then_other_expired:
  assumes "old_then_other (get_time t0) sig self" "t0 + of_int life_time + 1 \<le> clock"
  shows "neon_tx_dict (MPTxDict_clear clock self) sig = None"
proof -
  let ?P = "\<lambda>i. last_time i < max (get_time clock - life_time) 0"
  from assms(1) obtain pre post where s: "neon_tx_queue self = pre @ post"
    "\<forall>x\<in>set pre. last_time x \<le> get_time t0" "\<forall>x\<in>set post. neon_sig x \<noteq> sig"
    unfolding old_then_other_def by blast
  from expiry_bound[OF assms(2)] s(2) have "\<forall>x\<in>set pre. ?P x" by force
  then have "neon_tx_queue (MPTxDict_clear clock self) = dropWhile ?P post"
    by (simp add: clear_queue s(1))
  then have "sig \<notin> neon_sig ` set (neon_tx_queue (MPTxDict_clear clock self))"
    using s(3) by (auto dest: set_dropWhileD)
  moreover have "old_then_other (get_time t0) sig (apply_cache_op (Clear clock) self)"
    using assms(1) by (intro old_then_other_step) simp_all
  ultimately show ?thesis unfolding old_then_other_def by auto
qed

text \<open>
  C6, as amended. Let an item be added at \<open>t0 \<ge> 0\<close> under a signature that no item of the
  queue carries, and let the calls that follow add other signatures only. The item is read
  back, as its transaction or its recorded error, as long as every sweep so far ran before
  \<open>t0 + TTL\<close>; and after a sweep at \<open>t0 + TTL + 1\<close> or later the signature is not cached,
  provided the items already in the queue were not added later than \<open>t0\<close>. \<open>TTL\<close> is 15
  seconds and times have the resolution of one second.
\<close>

theorem cache_item_lifetime:
  assumes "0 \<le> t0"
    and "\<forall>i\<in>set (neon_tx_queue self). neon_sig i \<noteq> sig"
    and "\<forall>x\<in>set ops. \<not> adds_sig sig x"
  shows "((\<forall>x\<in>set ops. sweeps_before (t0 + of_int life_time) x) \<longrightarrow>
            MPTxDict_get sig (run_cache_ops ops (MPTxDict_add t0 sig tx exc self))
              = (case exc of None \<Rightarrow> NeonTx tx | Some e \<Rightarrow> EthereumErr e))
       \<and> ((\<forall>i\<in>set (neon_tx_queue self). last_time i \<le> get_time t0) \<and> t0 + of_int life_time + 1 \<le> t \<longrightarrow>
            MPTxDict_get sig (MPTxDict_clear t (run_cache_ops ops (MPTxDict_add t0 sig tx exc self)))
              = NotCached)"
proof (intro conjI impI)
  let ?item = "\<lparr>last_time = get_time t0, neon_sig = sig, neon_tx = tx, error = exc\<rparr>"
  let ?st = "MPTxDict_add t0 sig tx exc self"
  assume w: "\<forall>x\<in>set ops. sweeps_before (t0 + of_int life_time) x"
  have d: "neon_tx_dict ?st sig = Some ?item" by (simp add: add_dict)
  have q: "\<forall>i\<in>set (neon_tx_queue ?st). neon_sig i = sig \<longrightarrow> get_time t0 \<le> last_time i"
    using assms(2) by (auto simp: add_queue)
  from window_run[OF assms(1) d q assms(3) w]
  show "MPTxDict_get sig (run_cache_ops ops ?st) = (case exc of None \<Rightarrow> NeonTx tx | Some e \<Rightarrow> EthereumErr e)"
    by (simp add: MPTxDict_get_def split: option.splits)
next
  let ?item = "\<lparr>last_time = get_time t0, neon_sig = sig, neon_tx = tx, error = exc\<rparr>"
  let ?st = "MPTxDict_add t0 sig tx exc self"
  assume a: "(\<forall>i\<in>set (neon_tx_queue self). last_time i \<le> get_time t0) \<and> t0 + of_int life_time + 1 \<le> t"
  have "neon_tx_queue ?st = (neon_tx_queue self @ [?item]) @ []" by (simp add: add_queue)
  moreover have "\<forall>x\<in>set (neon_tx_queue self @ [?item]). last_time x \<le> get_time t0" using a by auto
  moreover have "sig \<in> neon_sig ` set (neon_tx_queue ?st)" by (simp add: add_queue)
  ultimately have "old_then_other (get_time t0) sig ?st"
    unfolding old_then_other_def by (metis empty_iff list.set(1))
  from old_then_other_run[OF this assms(3)] a
  have "neon_tx_dict (MPTxDict_clear t (run_cache_ops ops ?st)) sig = None"
    by (intro old_then_other_expired) auto
  then show "MPTxDict_get sig (MPTxDict_clear t (run_cache_ops ops ?st)) = NotCached"
    by (simp add: MPTxDict_get_def)
qed

theorem cache_item_lifetime_witness:
  "MPTxDict_get ''a'' (run_cache_ops [Add 105 ''b'' 2 None, Clear 110]
       (MPTxDict_add 100 ''a'' (1::nat) None MPTxDict_init)) = NeonTx 1
   \<and> MPTxDict_get ''a'' (MPTxDict_clear 116 (run_cache_ops [Add 105 ''b'' 2 None, Clear 110]
       (MPTxDict_add 100 ''a'' (1::nat) None MPTxDict_init))) = NotCached"
  using cache_item_lifetime[of 100 MPTxDict_init "''a''" "[Add 105 ''b'' 2 None, Clear 110]"
          "1::nat" None 116]
  by (simp add: MPTxDict_init_def life_time_def)

lemma ceiling_samples: "\<lceil>3 / 2 :: rat\<rceil> = 2" "\<lceil>83 / 5 :: rat\<rceil> = 17"
  by (rule ceiling_unique, simp, simp)+

text \<open>
  The claim as stated speaks of every item. An item added at time 20 under a signature
  that an item added at time 0 still carries is dropped from the dictionary by the sweep
  at time 21, inside its window. And an item added at time 1.5 is still cached after the
  sweep at time 16.6: times are rounded up to whole seconds.
\<close>

theorem cache_item_lifetime_counterexample:
  "MPTxDict_get ''a''
     (run_cache_ops [Add 0 ''a'' (1::nat) None, Add 20 ''a'' 2 None, Clear 21] MPTxDict_init)
     = NotCached
   \<and> (20::rat) \<le> 21 \<and> (21::rat) < 20 + of_int life_time
   \<and> MPTxDict_get ''a''
     (run_cache_ops [Add (3 / 2) ''a'' (1::nat) None, Clear (83 / 5)] MPTxDict_init)
     = NeonTx 1
   \<and> (3 / 2 :: rat) + of_int life_time < 83 / 5"
  by (simp add: MPTxDict_init_def MPTxDict_get_def add_queue add_dict clear_dict
        get_time_def life_time_def ceiling_samples)

section \<open>The mempool service\<close>

text \<open>
  What \<^verbatim>\<open>except Exception\<close> does with an exception of the handling of a request. A class
  derived from \<^verbatim>\<open>BaseException\<close> only is not caught. For any other class the handler
  reads \<^verbatim>\<open>mp_request.req_id\<close> and then \<^verbatim>\<open>mp_request.command\<close>; it logs and returns
  \<^verbatim>\<open>Result("Request failed")\<close> when the request has both attributes.
\<close>

lemma base_exception_passes:
  assumes "handle_request self rq logs = (Inl e, logs')" "\<not> is_Exception e"
  shows "on_data_received self rq logs = (Inl e, logs')"
  using assms by (simp add: on_data_received_def)

lemma exception_is_caught:
  assumes "handle_request self rq logs = (Inl e, logs')" "is_Exception e"
    and "req_id rq = Some rid" "command rq = Some c"
  shows "on_data_received self rq logs
           = (Inr (Result ''Request failed''), logs' @ [FailedToProcess rid c e])"
  using assms by (simp add: on_data_received_def)

lemma handler_reads_req_id:
  assumes "handle_request self rq logs = (Inl e, logs')" "is_Exception e" "req_id rq = None"
  shows "on_data_received self rq logs = (Inl (no_attribute (class_name rq) ''req_id''), logs')"
  using assms by (simp add: on_data_received_def)

lemma handler_reads_command:
  assumes "handle_request self rq logs = (Inl e, logs')" "is_Exception e"
    and "req_id rq = Some rid" "command rq = None"
  shows "on_data_received self rq logs = (Inl (no_attribute (class_name rq) ''command''), logs')"
  using assms by (simp add: on_data_received_def)

text \<open>
  Conversely, \<^verbatim>\<open>on_data_received\<close> raises in these three cases only, and it returns
  \<^verbatim>\<open>Result("Request failed")\<close> only from the handler.
\<close>

lemma on_data_received_raises:
  assumes "on_data_received self rq logs = (Inl e, logs')"
  shows "\<exists>e0. handle_request self rq logs = (Inl e0, logs')
           \<and> (if \<not> is_Exception e0 then e = e0
               else if req_id rq = None then e = no_attribute (class_name rq) ''req_id''
               else command rq = None \<and> e = no_attribute (class_name rq) ''command'')"
  using assms
  by (auto simp: on_data_received_def split: prod.splits sum.splits option.splits if_splits)

lemma maintenance_request_failed:
  "on_data_received
     \<lparr>mempool = Some (failing_mempool (Exception ''RuntimeError'' ''busy'')), replicator = None\<rparr>
     \<lparr>class_name = ''MaintenanceRequest'', is_MPRequest = False, is_MaintenanceRequest = True,
      req_id = Some ''r1'', req_type = None, command = Some SuspendMemPool, payload = ()\<rparr> []
   = (Inr (Result ''Request failed''),
      [FailedToProcess ''r1'' SuspendMemPool (Exception ''RuntimeError'' ''busy'')])"
  by (simp add: on_data_received_def handle_request_def process_maintenance_request_def
        failing_mempool_def)

text \<open>
  A cancellation raised while the transaction of a service request is scheduled leaves
  \<^verbatim>\<open>on_data_received\<close> as it is: \<^verbatim>\<open>CancelledError\<close> derives from \<^verbatim>\<open>BaseException\<close> only.
\<close>

lemma cancellation_passes:
  "on_data_received
     \<lparr>mempool = Some (failing_mempool (BaseException ''CancelledError'' '''')), replicator = None\<rparr>
     \<lparr>class_name = ''MPTxRequest'', is_MPRequest = True, is_MaintenanceRequest = False,
      req_id = Some ''r1'', req_type = Some SendTransaction, command = None, payload = ()\<rparr> []
   = (Inl (BaseException ''CancelledError'' ''''), [])"
  by (simp add: on_data_received_def handle_request_def process_mp_request_def failing_mempool_def)

text \<open>
  C9. The claim has every exception raised while a request is handled logged with the
  request id and turned into \<^verbatim>\<open>Result("Request failed")\<close>. A service request of the class
  \<^verbatim>\<open>MPTxRequest\<close>, with the type \<^verbatim>\<open>SendTransaction\<close> and the request id \<^verbatim>\<open>r1\<close>, has no
  attribute \<^verbatim>\<open>command\<close>. When the scheduling of its transaction raises
  \<^verbatim>\<open>RuntimeError('busy')\<close>, a class derived from \<^verbatim>\<open>Exception\<close>, the handler is entered,
  reads \<^verbatim>\<open>mp_request.command\<close> for its log line, and \<^verbatim>\<open>on_data_received\<close> raises
  \<^verbatim>\<open>AttributeError\<close>: nothing is logged and no \<^verbatim>\<open>Result\<close> is returned.
\<close>

theorem failed_service_request_raises:
  "handle_request
     \<lparr>mempool = Some (failing_mempool (Exception ''RuntimeError'' ''busy'')), replicator = None\<rparr>
     \<lparr>class_name = ''MPTxRequest'', is_MPRequest = True, is_MaintenanceRequest = False,
      req_id = Some ''r1'', req_type = Some SendTransaction, command = None, payload = ()\<rparr> []
   = (Inl (Exception ''RuntimeError'' ''busy''), [])
   \<and> is_Exception (Exception ''RuntimeError'' ''busy'')
   \<and> on_data_received
     \<lparr>mempool = Some (failing_mempool (Exception ''RuntimeError'' ''busy'')), replicator = None\<rparr>
     \<lparr>class_name = ''MPTxRequest'', is_MPRequest = True, is_MaintenanceRequest = False,
      req_id = Some ''r1'', req_type = Some SendTransaction, command = None, payload = ()\<rparr> []
   = (Inl (Exception ''AttributeError''
             (quoted ''MPTxRequest'' @ '' object has no attribute '' @ quoted ''command'')), [])"
  by (simp add: on_data_received_def handle_request_def process_mp_request_def failing_mempool_def
        no_attribute_def)


section \<open>Blocks as JSON\<close>

lemma concat_replicate_pair: "concat (replicate n [c, c]) = replicate (2 * n) c"
  by (induction n) auto

lemma bind_Inr: "bind m f = Inr v \<Longrightarrow> \<exists>x. m = Inr x \<and> f x = Inr v"
  by (cases m) (auto simp: bind_def)

lemma bind_InrE:
  assumes "bind m f = Inr v"
  obtains x where "m = Inr x" "f x = Inr v"
  using assms by (cases m) (auto simp: bind_def)

lemma block_object_shape:
  "block_shape 256 (JObj
     [(''gasUsed'', g), (''hash'', h), (''number'', n), (''parentHash'', p), (''timestamp'', t),
      (''transactions'', JList txs), (''logsBloom'', JStr (''0x'' @ replicate 512 CHR ''0'')),
      (''gasLimit'', JStr ''0x6691b7'')])"
  by (auto simp: block_shape_def concat_replicate_pair)

lemma getBlockBySlot_shape:
  assumes "getBlockBySlot env slot full = Inr v"
  shows "v = JNull \<or> block_shape 256 v"
  using assms unfolding getBlockBySlot_def
  by (auto elim!: bind_InrE split: option.splits prod.splits simp: block_object_shape[simplified])

text \<open>
  C8, as amended. Whatever \<^verbatim>\<open>getBlockBySlot\<close>, \<^verbatim>\<open>eth_getBlockByHash\<close> and
  \<^verbatim>\<open>eth_getBlockByNumber\<close> return is \<^verbatim>\<open>None\<close> or an object with exactly the fields
  \<^verbatim>\<open>hash\<close>, \<^verbatim>\<open>number\<close>, \<^verbatim>\<open>parentHash\<close>, \<^verbatim>\<open>timestamp\<close>, \<^verbatim>\<open>transactions\<close>, \<^verbatim>\<open>gasUsed\<close>,
  \<^verbatim>\<open>gasLimit\<close> and \<^verbatim>\<open>logsBloom\<close>, with \<^verbatim>\<open>gasLimit\<close> \<^verbatim>\<open>0x6691b7\<close> and with \<^verbatim>\<open>logsBloom\<close> the
  hexadecimal digits of 256 zero bytes.
\<close>

theorem block_json_shape:
  "(getBlockBySlot env slot full = Inr v \<longrightarrow> v = JNull \<or> block_shape 256 v)
   \<and> (eth_getBlockByHash env h full = Inr v \<longrightarrow> v = JNull \<or> block_shape 256 v)
   \<and> (eth_getBlockByNumber env tag full = Inr v \<longrightarrow> v = JNull \<or> block_shape 256 v)"
proof (intro conjI impI)
  assume "getBlockBySlot env slot full = Inr v"
  then show "v = JNull \<or> block_shape 256 v" by (rule getBlockBySlot_shape)
next
  assume "eth_getBlockByHash env h full = Inr v"
  then obtain s where "(if s = JNull then Inr JNull else getBlockBySlot env s full) = Inr v"
    unfolding eth_getBlockByHash_def by (auto dest!: bind_Inr)
  then show "v = JNull \<or> block_shape 256 v"
    by (cases "s = JNull") (auto dest: getBlockBySlot_shape)
next
  assume "eth_getBlockByNumber env tag full = Inr v"
  then obtain s where "(if s = JNull then Inr JNull else getBlockBySlot env s full) = Inr v"
    unfolding eth_getBlockByNumber_def by (auto dest!: bind_Inr)
  then show "v = JNull \<or> block_shape 256 v"
    by (cases "s = JNull") (auto dest: getBlockBySlot_shape)
qed

lemma sample_block:
  "getBlockBySlot sample_env (JInt 7) (JBool False) =
     Inr (JObj
       [(''gasUsed'', JStr ''0x10''), (''hash'', JStr ''0x0123''), (''number'', JStr ''0x7''),
        (''parentHash'', JStr ''0x0123''), (''timestamp'', JStr ''0x3e8''),
        (''transactions'', JList [JStr ''0xab'']),
        (''logsBloom'', JStr (''0x'' @ replicate 512 CHR ''0'')),
        (''gasLimit'', JStr ''0x6691b7'')])"
proof -
  have i: "int16 ''0x10'' = Inr 16"
    by (simp add: int16_def literal_value_def hex_digit_value_def int_space_def Let_def)
  have h: "hex 16 = ''0x10''" "hex 7 = ''0x7''" "hex 1000 = ''0x3e8''"
    by (simp_all add: hex_def hex_digits.simps hex_char_def char_of_eq_iff)
  show ?thesis
    by (simp add: getBlockBySlot_def sample_env_def bind_def subscript_def iterate_def
          equals_zero_def truthy_def int16_of_def hex_of_def i h)
qed

theorem block_json_shape_witness:
  "getBlockBySlot sample_env (JInt 7) (JBool False) =
     Inr (JObj
       [(''gasUsed'', JStr ''0x10''), (''hash'', JStr ''0x0123''), (''number'', JStr ''0x7''),
        (''parentHash'', JStr ''0x0123''), (''timestamp'', JStr ''0x3e8''),
        (''transactions'', JList [JStr ''0xab'']),
        (''logsBloom'', JStr (''0x'' @ replicate 512 CHR ''0'')),
        (''gasLimit'', JStr ''0x6691b7'')])
   \<and> eth_getBlockByHash sample_env (JStr ''0xFF'') (JBool False)
       = getBlockBySlot sample_env (JInt 7) (JBool False)
   \<and> eth_getBlockByNumber sample_env (JStr ''0x7'') (JBool False)
       = getBlockBySlot sample_env (JInt 7) (JBool False)
   \<and> block_shape 256 (JObj
       [(''gasUsed'', JStr ''0x10''), (''hash'', JStr ''0x0123''), (''number'', JStr ''0x7''),
        (''parentHash'', JStr ''0x0123''), (''timestamp'', JStr ''0x3e8''),
        (''transactions'', JList [JStr ''0xab'']),
        (''logsBloom'', JStr (''0x'' @ replicate 512 CHR ''0'')),
        (''gasLimit'', JStr ''0x6691b7'')])"
proof -
  let ?v = "JObj
       [(''gasUsed'', JStr ''0x10''), (''hash'', JStr ''0x0123''), (''number'', JStr ''0x7''),
        (''parentHash'', JStr ''0x0123''), (''timestamp'', JStr ''0x3e8''),
        (''transactions'', JList [JStr ''0xab'']),
        (''logsBloom'', JStr (''0x'' @ replicate 512 CHR ''0'')),
        (''gasLimit'', JStr ''0x6691b7'')]"
  have l: "lower (JStr ''0xFF'') = Inr ''0xff''"
    by (simp add: lower_def lower_char_def char_of_eq_iff)
  have a: "eth_getBlockByHash sample_env (JStr ''0xFF'') (JBool False)
       = getBlockBySlot sample_env (JInt 7) (JBool False)"
    by (simp add: eth_getBlockByHash_def l bind_def) (simp add: sample_env_def)
  have i: "int16 ''0x7'' = Inr 7"
    by (simp add: int16_def literal_value_def hex_digit_value_def int_space_def Let_def)
  have b: "eth_getBlockByNumber sample_env (JStr ''0x7'') (JBool False)
       = getBlockBySlot sample_env (JInt 7) (JBool False)"
    by (simp add: eth_getBlockByNumber_def process_block_tag_def i bind_def) (simp add: sample_env_def)
  from block_json_shape[of sample_env "JInt 7" "JBool False" ?v "JStr ''0xFF''" "JStr ''0x7''"]
  have "block_shape 256 ?v" using sample_block a b by simp
  with sample_block a b show ?thesis by (intro conjI)
qed

text \<open>
  The claim as stated gives \<^verbatim>\<open>logsBloom\<close> 128 zero bytes. The field is \<^verbatim>\<open>0x\<close> followed
  by 512 zeros, the digits of 256 bytes.
\<close>

theorem block_json_shape_counterexample:
  "getBlockBySlot sample_env (JInt 7) (JBool False) =
     Inr (JObj
       [(''gasUsed'', JStr ''0x10''), (''hash'', JStr ''0x0123''), (''number'', JStr ''0x7''),
        (''parentHash'', JStr ''0x0123''), (''timestamp'', JStr ''0x3e8''),
        (''transactions'', JList [JStr ''0xab'']),
        (''logsBloom'', JStr (''0x'' @ replicate 512 CHR ''0'')),
        (''gasLimit'', JStr ''0x6691b7'')])
   \<and> \<not> block_shape 128 (JObj
       [(''gasUsed'', JStr ''0x10''), (''hash'', JStr ''0x0123''), (''number'', JStr ''0x7''),
        (''parentHash'', JStr ''0x0123''), (''timestamp'', JStr ''0x3e8''),
        (''transactions'', JList [JStr ''0xab'']),
        (''logsBloom'', JStr (''0x'' @ replicate 512 CHR ''0'')),
        (''gasLimit'', JStr ''0x6691b7'')])"
proof -
  have "replicate 512 CHR ''0'' \<noteq> concat (replicate 128 ''00'')"
    by (simp add: concat_replicate_pair)
  then show ?thesis using sample_block by (simp add: block_shape_def)
qed

section \<open>Dispatching a request\<close>



end
